theory Spec2Isabelle
  imports Complex_Main "HOL-Library.Word" "HOL-Library.Product_Lexorder" "HOL-Library.Log_Nat"
begin

section \<open>Calendar dates\<close>

text \<open>
  Go's \<^verbatim>\<open>time.Time\<close> is read by the service only through \<^verbatim>\<open>Year()\<close>, \<^verbatim>\<open>Month()\<close> and
  \<^verbatim>\<open>Day()\<close>, so a time value is modelled by these three calendar fields. \<^verbatim>\<open>Year()\<close> and
  \<^verbatim>\<open>Day()\<close> return \<^verbatim>\<open>int\<close>; \<^verbatim>\<open>Month\<close> is an integer type with January = 1. The years a
  \<^verbatim>\<open>time.Time\<close> can hold are far inside the range of a 64-bit \<^verbatim>\<open>int\<close>, so the subtraction
  of two years cannot overflow and the fields are unbounded integers here.
\<close>

record Time =
  Year :: int
  Month :: int
  Day :: int

section \<open>The age calculator (internal/service/user\_service.go)\<close>

text \<open>
  \<^verbatim>\<open>
  func CalculateAge(dob time.Time) int {
      now := time.Now()
      age := now.Year() - dob.Year()
      if now.Month() < dob.Month() || (now.Month() == dob.Month() && now.Day() < dob.Day()) {
          age--
      }
      return age
  }
  \<close>
  The clock read \<^verbatim>\<open>time.Now()\<close> is the first argument of the model.
\<close>

definition CalculateAge :: "Time \<Rightarrow> Time \<Rightarrow> int" where
  "CalculateAge now dob =
     (let age = Year now - Year dob
      in if Month now < Month dob \<or> (Month now = Month dob \<and> Day now < Day dob)
         then age - 1
         else age)"

text \<open>The order of dates by (year, month, day), used to say "on or before" and "after".\<close>

definition date_le :: "Time \<Rightarrow> Time \<Rightarrow> bool" where
  "date_le a b \<longleftrightarrow> (Year a, Month a, Day a) \<le> (Year b, Month b, Day b)"

definition date_less :: "Time \<Rightarrow> Time \<Rightarrow> bool" where
  "date_less a b \<longleftrightarrow> (Year a, Month a, Day a) < (Year b, Month b, Day b)"

section \<open>The Gregorian calendar\<close>

text \<open>
  The dates a \<^verbatim>\<open>time.Time\<close> can show are those of the proleptic Gregorian calendar.
  \<open>valid_date\<close> says that the three fields name a day of that calendar, and
  \<open>prev_day\<close> is the day before, which the specification writes "r - 1 day"
  (\<^verbatim>\<open>AddDate(0, 0, -1)\<close> in the tests of the repository).
\<close>

definition leap_year :: "int \<Rightarrow> bool" where
  "leap_year y = (if y mod 100 = 0 then y mod 400 = 0 else y mod 4 = 0)"

definition days_in_month :: "int \<Rightarrow> int \<Rightarrow> int" where
  "days_in_month y m =
     (if m = 2 then (if leap_year y then 29 else 28)
      else if m = 4 \<or> m = 6 \<or> m = 9 \<or> m = 11 then 30
      else 31)"

definition valid_date :: "Time \<Rightarrow> bool" where
  "valid_date t \<longleftrightarrow>
     1 \<le> Month t \<and> Month t \<le> 12 \<and> 1 \<le> Day t \<and> Day t \<le> days_in_month (Year t) (Month t)"

definition prev_day :: "Time \<Rightarrow> Time" where
  "prev_day t =
     (if 1 < Day t then t\<lparr>Day := Day t - 1\<rparr>
      else if 1 < Month t
        then \<lparr>Year = Year t, Month = Month t - 1, Day = days_in_month (Year t) (Month t - 1)\<rparr>
      else \<lparr>Year = Year t - 1, Month = 12, Day = 31\<rparr>)"

section \<open>Dates as text: the layout 2006-01-02\<close>

text \<open>
  \<^verbatim>\<open>time.Parse("2006-01-02", s)\<close> of the Go library accepts exactly four digits, a
  hyphen, two digits, a hyphen and two digits that name a day of the calendar, and
  nothing before or after. The service drops the library's error value and answers
  \<^verbatim>\<open>ErrInvalidDate\<close>, so the model of the parser returns an option.
  \<^verbatim>\<open>Format("2006-01-02")\<close> prints the year with at least four digits (a minus sign
  first for a negative year), then month and day with two digits each.
\<close>

definition digit_of :: "char \<Rightarrow> nat option" where
  "digit_of c = map_of (zip ''0123456789'' [0, 1, 2, 3, 4, 5, 6, 7, 8, 9]) c"

fun parse_digits :: "string \<Rightarrow> nat \<Rightarrow> nat option" where
  "parse_digits [] acc = Some acc"
| "parse_digits (c # cs) acc =
     (case digit_of c of None \<Rightarrow> None | Some k \<Rightarrow> parse_digits cs (10 * acc + k))"

definition ParseDate :: "string \<Rightarrow> Time option" where
  "ParseDate s =
     (if length s = 10 \<and> s ! 4 = CHR ''-'' \<and> s ! 7 = CHR ''-'' then
        (case (parse_digits (take 4 s) 0, parse_digits (take 2 (drop 5 s)) 0,
               parse_digits (drop 8 s) 0) of
           (Some y, Some m, Some d) \<Rightarrow>
             (let t = \<lparr>Year = int y, Month = int m, Day = int d\<rparr>
              in if valid_date t then Some t else None)
         | _ \<Rightarrow> None)
      else None)"

definition digit_char :: "nat \<Rightarrow> char" where
  "digit_char k = ''0123456789'' ! (k mod 10)"

fun decimal :: "nat \<Rightarrow> string" where
  "decimal n = (if n < 10 then [digit_char n] else decimal (n div 10) @ [digit_char n])"

definition append_int :: "int \<Rightarrow> nat \<Rightarrow> string" where
  "append_int x width =
     (let ds = decimal (nat \<bar>x\<bar>)
      in (if x < 0 then ''-'' else []) @ replicate (width - length ds) CHR ''0'' @ ds)"

definition FormatDate :: "Time \<Rightarrow> string" where
  "FormatDate t =
     append_int (Year t) 4 @ ''-'' @ append_int (Month t) 2 @ ''-'' @ append_int (Day t) 2"

section \<open>Data model (internal/models/user.go)\<close>

text \<open>
  The structs of the source are records. Fields that several structs of the source
  name alike are told apart by a prefix: \<open>CreateName\<close>, \<open>CreateDOB\<close> for
  \<^verbatim>\<open>CreateUserRequest\<close>, \<open>UpdateName\<close>, \<open>UpdateDOB\<close> for \<^verbatim>\<open>UpdateUserRequest\<close>,
  \<open>RespID\<close>, \<open>RespName\<close>, \<open>RespDOB\<close> for \<^verbatim>\<open>UserResponse\<close>, and \<open>ListPage\<close>,
  \<open>ListPageSize\<close> for \<^verbatim>\<open>UserListResponse\<close>. \<^verbatim>\<open>int32\<close> is \<open>32 word\<close>; \<^verbatim>\<open>int64\<close>
  and \<^verbatim>\<open>int\<close> (64 bits on the platforms the server is built for) are \<open>64 word\<close>, read
  as signed by \<open>sint\<close>. The pointer \<^verbatim>\<open>Age *int\<close> with \<^verbatim>\<open>omitempty\<close> is an option.
\<close>

record User =
  ID :: "32 word"
  Name :: string
  DOB :: Time
  CreatedAt :: Time
  UpdatedAt :: Time

record CreateUserRequest =
  CreateName :: string
  CreateDOB :: string

record UpdateUserRequest =
  UpdateName :: string
  UpdateDOB :: string

record UserResponse =
  RespID :: "32 word"
  RespName :: string
  RespDOB :: string
  Age :: "int option"

record UserListResponse =
  Users :: "UserResponse list"
  Total :: "64 word"
  ListPage :: "64 word"
  ListPageSize :: "64 word"
  TotalPages :: "64 word"

record PaginationParams =
  Page :: "64 word"
  PageSize :: "64 word"

text \<open>
  \<^verbatim>\<open>
  func (p *PaginationParams) SetDefaults() {
      if p.Page == 0 { p.Page = 1 }
      if p.PageSize == 0 { p.PageSize = 10 }
  }
  func (p *PaginationParams) GetOffset() int32 { return int32((p.Page - 1) * p.PageSize) }
  func (p *PaginationParams) GetLimit() int32 { return int32(p.PageSize) }
  \<close>
  The product is taken in \<^verbatim>\<open>int\<close> and wraps there; the conversion to \<^verbatim>\<open>int32\<close> keeps
  the low 32 bits, which is what \<open>ucast\<close> to a shorter word does.
\<close>

definition SetDefaults :: "PaginationParams \<Rightarrow> PaginationParams" where
  "SetDefaults p =
     (let p1 = (if Page p = 0 then p\<lparr>Page := 1\<rparr> else p)
      in if PageSize p1 = 0 then p1\<lparr>PageSize := 10\<rparr> else p1)"

definition GetOffset :: "PaginationParams \<Rightarrow> 32 word" where
  "GetOffset p = ucast ((Page p - 1) * PageSize p)"

definition GetLimit :: "PaginationParams \<Rightarrow> 32 word" where
  "GetLimit p = ucast (PageSize p)"

text \<open>
  The struct tags \<^verbatim>\<open>validate:"omitempty,min=1"\<close> on \<^verbatim>\<open>Page\<close> and
  \<^verbatim>\<open>validate:"omitempty,min=1,max=100"\<close> on \<^verbatim>\<open>PageSize\<close>, as the handler's validator
  reads them: a zero field is skipped, any other must lie within the bounds. There is
  no \<^verbatim>\<open>max\<close> on \<^verbatim>\<open>Page\<close>.
\<close>

definition validate_PaginationParams :: "PaginationParams \<Rightarrow> bool" where
  "validate_PaginationParams p \<longleftrightarrow>
     (Page p = 0 \<or> 1 \<le> sint (Page p)) \<and>
     (PageSize p = 0 \<or> (1 \<le> sint (PageSize p) \<and> sint (PageSize p) \<le> 100))"

section \<open>Errors\<close>

text \<open>
  \<^verbatim>\<open>sql.ErrNoRows\<close> of the library, the two sentinels of the service, an error of the
  web framework (\<^verbatim>\<open>*fiber.Error\<close> with its code and message), and any other error of
  the database driver with its message. \<open>Error\<close> is the method \<^verbatim>\<open>Error()\<close>.
\<close>

datatype error =
    ErrNoRows
  | ErrUserNotFound
  | ErrInvalidDate
  | FiberError nat string
  | DriverError string

fun Error :: "error \<Rightarrow> string" where
  "Error ErrNoRows = ''sql: no rows in result set''"
| "Error ErrUserNotFound = ''user not found''"
| "Error ErrInvalidDate = ''invalid date format''"
| "Error (FiberError code message) = message"
| "Error (DriverError message) = message"

section \<open>The database behind the repository\<close>

text \<open>
  Modelled from the spec: the table \<^verbatim>\<open>users\<close>, whose schema
  (db/migrations/001\_create\_users.sql) is not among the sources; the specification
  gives it as \<^verbatim>\<open>users(id serial primary key, name text not null, dob date not null,
  created_at timestamp default now(), updated_at timestamp default now())\<close>, with ids
  assigned by the server and unique, and deletion removing the row.
  The repository talks to this PostgreSQL table through \<^verbatim>\<open>database/sql\<close>; neither is
  code of the repository. The table is modelled by the list of its rows, the next
  value of the sequence that feeds the \<^verbatim>\<open>serial\<close> primary key, the database's clock
  (\<^verbatim>\<open>now()\<close>, \<^verbatim>\<open>CURRENT_TIMESTAMP\<close>), and the message of the error the driver raises
  on a statement, if any (\<open>None\<close> while the store is reachable). Each statement of
  db/queries/users.sql is one function:
  \<^item> \<^verbatim>\<open>INSERT ... RETURNING\<close> takes the next value of the sequence, which runs from 1
    to 2147483647 and fails beyond; it refuses a duplicate key (the sequence has
    advanced all the same) and otherwise appends the row;
  \<^item> \<^verbatim>\<open>SELECT ... WHERE id = $1\<close> answers the first matching row, or
    \<^verbatim>\<open>sql.ErrNoRows\<close> from \<^verbatim>\<open>Scan\<close> when there is none;
  \<^item> \<^verbatim>\<open>SELECT ... ORDER BY id LIMIT $1 OFFSET $2\<close> refuses a negative limit or offset
    and otherwise slices the rows sorted by id; the cursor it returns is the list of
    what \<^verbatim>\<open>rows.Scan\<close> yields row by row, with the final \<^verbatim>\<open>rows.Err()\<close>;
  \<^item> \<^verbatim>\<open>UPDATE ... WHERE id = $3 RETURNING\<close> rewrites the matching rows;
  \<^item> \<^verbatim>\<open>DELETE ... WHERE id = $1\<close> removes the matching rows and reports how many
    (\<^verbatim>\<open>RowsAffected\<close>, which may itself fail in \<^verbatim>\<open>database/sql\<close> but never does here);
  \<^item> \<^verbatim>\<open>SELECT COUNT(*)\<close> counts the rows.
\<close>

record Store =
  rows :: "User list"
  next_id :: int
  db_now :: Time
  fault :: "string option"

definition sql_insert :: "Store \<Rightarrow> string \<Rightarrow> Time \<Rightarrow> (error + User) \<times> Store" where
  "sql_insert db name dob =
     (case fault db of
        Some msg \<Rightarrow> (Inl (DriverError msg), db)
      | None \<Rightarrow>
          (let v = next_id db;
               db1 = db\<lparr>next_id := v + 1\<rparr>;
               user = \<lparr>ID = word_of_int v, Name = name, DOB = dob,
                       CreatedAt = db_now db, UpdatedAt = db_now db\<rparr>
           in if 2147483647 < v \<or> v < 1
                then (Inl (DriverError ''pq: nextval: reached the bound of the sequence''), db)
              else if word_of_int v \<in> set (map ID (rows db))
                then (Inl (DriverError ''pq: duplicate key value violates unique constraint''),
                      db1)
              else (Inr user, db1\<lparr>rows := rows db @ [user]\<rparr>)))"

definition sql_select_by_id :: "Store \<Rightarrow> 32 word \<Rightarrow> error + User" where
  "sql_select_by_id db ident =
     (case fault db of
        Some msg \<Rightarrow> Inl (DriverError msg)
      | None \<Rightarrow>
          (case find (\<lambda>u. ID u = ident) (rows db) of
             None \<Rightarrow> Inl ErrNoRows
           | Some u \<Rightarrow> Inr u))"

definition sql_select_page ::
    "Store \<Rightarrow> 32 word \<Rightarrow> 32 word \<Rightarrow> error + ((error + User) list \<times> error option)" where
  "sql_select_page db limit offset =
     (case fault db of
        Some msg \<Rightarrow> Inl (DriverError msg)
      | None \<Rightarrow>
          if sint limit < 0 then Inl (DriverError ''pq: LIMIT must not be negative'')
          else if sint offset < 0 then Inl (DriverError ''pq: OFFSET must not be negative'')
          else Inr (map Inr (take (nat (sint limit))
                       (drop (nat (sint offset)) (sort_key (\<lambda>u. sint (ID u)) (rows db)))),
                    None))"

definition sql_update :: "Store \<Rightarrow> string \<Rightarrow> Time \<Rightarrow> 32 word \<Rightarrow> (error + User) \<times> Store" where
  "sql_update db name dob ident =
     (case fault db of
        Some msg \<Rightarrow> (Inl (DriverError msg), db)
      | None \<Rightarrow>
          (let change = (\<lambda>u. if ID u = ident
                              then u\<lparr>Name := name, DOB := dob, UpdatedAt := db_now db\<rparr>
                              else u);
               db1 = db\<lparr>rows := map change (rows db)\<rparr>
           in case find (\<lambda>u. ID u = ident) (rows db1) of
                None \<Rightarrow> (Inl ErrNoRows, db1)
              | Some u \<Rightarrow> (Inr u, db1)))"

definition sql_delete :: "Store \<Rightarrow> 32 word \<Rightarrow> (error + (error + 64 word)) \<times> Store" where
  "sql_delete db ident =
     (case fault db of
        Some msg \<Rightarrow> (Inl (DriverError msg), db)
      | None \<Rightarrow>
          (Inr (Inr (word_of_nat (length (filter (\<lambda>u. ID u = ident) (rows db))))),
           db\<lparr>rows := filter (\<lambda>u. ID u \<noteq> ident) (rows db)\<rparr>))"

definition sql_count :: "Store \<Rightarrow> error + 64 word" where
  "sql_count db =
     (case fault db of
        Some msg \<Rightarrow> Inl (DriverError msg)
      | None \<Rightarrow> Inr (word_of_nat (length (rows db))))"

section \<open>The repository (internal/repository/user\_repository.go)\<close>

text \<open>
  Each method runs its statement and maps the outcome as the source does. Logging has
  no effect on results and is left out. A Go result \<^verbatim>\<open>(*models.User, error)\<close> is
  \<open>error + User option\<close>: \<open>Inl\<close> the error, \<open>Inr None\<close> the pair \<^verbatim>\<open>(nil, nil)\<close>.
  A result \<^verbatim>\<open>error\<close> alone is \<open>error option\<close>, \<open>None\<close> for \<^verbatim>\<open>nil\<close>.
\<close>

definition Create :: "Store \<Rightarrow> string \<Rightarrow> Time \<Rightarrow> (error + User) \<times> Store" where
  "Create db name dob =
     (case sql_insert db name dob of
        (Inl err, db1) \<Rightarrow> (Inl err, db1)
      | (Inr user, db1) \<Rightarrow> (Inr user, db1))"

definition GetById :: "Store \<Rightarrow> 32 word \<Rightarrow> error + User option" where
  "GetById db ident =
     (case sql_select_by_id db ident of
        Inl err \<Rightarrow> (if err = ErrNoRows then Inr None else Inl err)
      | Inr user \<Rightarrow> Inr (Some user))"

text \<open>
  The loop \<^verbatim>\<open>for rows.Next() { ... rows.Scan(...) ... users = append(users, user) }\<close>
  of \<^verbatim>\<open>List\<close>, stopping at the first row that fails to scan.
\<close>

fun scan_rows :: "(error + User) list \<Rightarrow> User list \<Rightarrow> error + User list" where
  "scan_rows [] users = Inr users"
| "scan_rows (r # rs) users =
     (case r of Inl err \<Rightarrow> Inl err | Inr user \<Rightarrow> scan_rows rs (users @ [user]))"

definition List :: "Store \<Rightarrow> 32 word \<Rightarrow> 32 word \<Rightarrow> error + User list" where
  "List db limit offset =
     (case sql_select_page db limit offset of
        Inl err \<Rightarrow> Inl err
      | Inr (cursor, rows_err) \<Rightarrow>
          (case scan_rows cursor [] of
             Inl err \<Rightarrow> Inl err
           | Inr users \<Rightarrow>
               (case rows_err of Some err \<Rightarrow> Inl err | None \<Rightarrow> Inr users)))"

definition Update :: "Store \<Rightarrow> 32 word \<Rightarrow> string \<Rightarrow> Time \<Rightarrow> (error + User option) \<times> Store" where
  "Update db ident name dob =
     (case sql_update db name dob ident of
        (Inl err, db1) \<Rightarrow> (if err = ErrNoRows then (Inr None, db1) else (Inl err, db1))
      | (Inr user, db1) \<Rightarrow> (Inr (Some user), db1))"

definition Delete :: "Store \<Rightarrow> 32 word \<Rightarrow> error option \<times> Store" where
  "Delete db ident =
     (case sql_delete db ident of
        (Inl err, db1) \<Rightarrow> (Some err, db1)
      | (Inr (Inl err), db1) \<Rightarrow> (Some err, db1)
      | (Inr (Inr rowsAffected), db1) \<Rightarrow>
          (if rowsAffected = 0 then (Some ErrNoRows, db1) else (None, db1)))"

definition Count :: "Store \<Rightarrow> error + 64 word" where
  "Count db = (case sql_count db of Inl err \<Rightarrow> Inl err | Inr n \<Rightarrow> Inr n)"

section \<open>IEEE 754 double precision, as far as the page count needs it\<close>

text \<open>
  \<^verbatim>\<open>ListUsers\<close> computes \<^verbatim>\<open>int(math.Ceil(float64(total) / float64(params.PageSize)))\<close>.
  A \<^verbatim>\<open>float64\<close> is a rational number with a 53-bit significand, an infinity or NaN.
  The two signed zeros are one value here: they convert to the integer 0 alike and no
  divisor of the source is a negative zero. Conversion from an integer and division
  round the exact result to the nearest \<^verbatim>\<open>float64\<close>, ties to the even significand:
  \<open>f64_exponent a\<close> is the \<open>l\<close> with \<open>2 ^ l \<le> a < 2 ^ (l + 1)\<close>, the significand is
  counted in units of \<open>2 ^ (l - 52)\<close> (of \<open>2 ^ - 1074\<close> for a subnormal), and a result
  of \<open>2 ^ 1024\<close> or more is an infinity. \<^verbatim>\<open>int(f)\<close> drops the fraction; for a value
  outside the range of \<^verbatim>\<open>int\<close>, an infinity or NaN, the Go specification leaves the
  result to the implementation, and the model returns what amd64 does, the least
  \<^verbatim>\<open>int\<close>.
\<close>

datatype f64 = Finite rat | PosInf | NegInf | NaN

definition pow2 :: "int \<Rightarrow> rat" where
  "pow2 e = (if 0 \<le> e then 2 ^ nat e else 1 / 2 ^ nat (- e))"

definition f64_exponent :: "rat \<Rightarrow> int" where
  "f64_exponent a =
     (let (p, q) = quotient_of a; b = bitlen p - bitlen q
      in if pow2 b \<le> a then b else b - 1)"

definition round_half_even :: "rat \<Rightarrow> int" where
  "round_half_even m =
     (let n = \<lfloor>m\<rfloor>; r = m - of_int n
      in if r < 1 / 2 then n
         else if 1 / 2 < r then n + 1
         else if even n then n else n + 1)"

definition f64_round :: "rat \<Rightarrow> f64" where
  "f64_round x =
     (if x = 0 then Finite 0
      else
        (let a = \<bar>x\<bar>;
             e = max (f64_exponent a - 52) (- 1074);
             y = of_int (round_half_even (a / pow2 e)) * pow2 e
         in if 2 ^ 1024 \<le> y then (if 0 < x then PosInf else NegInf)
            else Finite (sgn x * y)))"

definition f64_of_int :: "int \<Rightarrow> f64" where
  "f64_of_int i = f64_round (of_int i)"

fun f64_div :: "f64 \<Rightarrow> f64 \<Rightarrow> f64" where
  "f64_div NaN y = NaN"
| "f64_div x NaN = NaN"
| "f64_div (Finite a) (Finite b) =
     (if b = 0 then (if a = 0 then NaN else if 0 < a then PosInf else NegInf)
      else f64_round (a / b))"
| "f64_div (Finite a) y = Finite 0"
| "f64_div PosInf (Finite b) = (if b < 0 then NegInf else PosInf)"
| "f64_div NegInf (Finite b) = (if b < 0 then PosInf else NegInf)"
| "f64_div x y = NaN"

fun f64_ceil :: "f64 \<Rightarrow> f64" where
  "f64_ceil (Finite a) = Finite (of_int \<lceil>a\<rceil>)"
| "f64_ceil x = x"

fun int_of_f64 :: "f64 \<Rightarrow> 64 word" where
  "int_of_f64 (Finite a) =
     (let t = (if 0 \<le> a then \<lfloor>a\<rfloor> else \<lceil>a\<rceil>)
      in if - (2 ^ 63) \<le> t \<and> t < 2 ^ 63 then word_of_int t else word_of_int (- (2 ^ 63)))"
| "int_of_f64 x = word_of_int (- (2 ^ 63))"

definition total_pages :: "64 word \<Rightarrow> 64 word \<Rightarrow> 64 word" where
  "total_pages totalRows pageSize =
     int_of_f64 (f64_ceil (f64_div (f64_of_int (sint totalRows)) (f64_of_int (sint pageSize))))"

section \<open>The service (internal/service/user\_service.go)\<close>

text \<open>
  The service methods take the store and return it where the statement they run may
  change it. \<^verbatim>\<open>time.Now()\<close> inside \<^verbatim>\<open>CalculateAge\<close> is a reading of the clock:
  \<^verbatim>\<open>GetUser\<close> takes its one reading as an argument, \<^verbatim>\<open>ListUsers\<close> takes the readings
  as a function of the position of the row, since it reads the clock once per row.
  \<^verbatim>\<open>ListUsers\<close> stores the defaults into the parameters it was handed; its caller does
  not read them again, so the model keeps them local. The variable \<^verbatim>\<open>total\<close> of the
  source is \<open>totalRows\<close> here.
\<close>

definition CreateUser ::
    "Store \<Rightarrow> CreateUserRequest \<Rightarrow> (error + UserResponse) \<times> Store" where
  "CreateUser db req =
     (case ParseDate (CreateDOB req) of
        None \<Rightarrow> (Inl ErrInvalidDate, db)
      | Some dob \<Rightarrow>
          (case Create db (CreateName req) dob of
             (Inl err, db1) \<Rightarrow> (Inl err, db1)
           | (Inr user, db1) \<Rightarrow>
               (Inr \<lparr>RespID = ID user, RespName = Name user,
                     RespDOB = FormatDate (DOB user), Age = None\<rparr>, db1)))"

definition GetUser :: "Store \<Rightarrow> Time \<Rightarrow> 32 word \<Rightarrow> error + UserResponse" where
  "GetUser db now ident =
     (case GetById db ident of
        Inl err \<Rightarrow> Inl err
      | Inr None \<Rightarrow> Inl ErrUserNotFound
      | Inr (Some user) \<Rightarrow>
          (let age = CalculateAge now (DOB user)
           in Inr \<lparr>RespID = ID user, RespName = Name user,
                   RespDOB = FormatDate (DOB user), Age = Some age\<rparr>))"

definition ListUsers ::
    "Store \<Rightarrow> (nat \<Rightarrow> Time) \<Rightarrow> PaginationParams \<Rightarrow> error + UserListResponse" where
  "ListUsers db clock params0 =
     (let params = SetDefaults params0
      in case List db (GetLimit params) (GetOffset params) of
           Inl err \<Rightarrow> Inl err
         | Inr users \<Rightarrow>
             (case Count db of
                Inl err \<Rightarrow> Inl err
              | Inr totalRows \<Rightarrow>
                  Inr \<lparr>Users =
                         map (\<lambda>(k, user).
                                \<lparr>RespID = ID user, RespName = Name user,
                                 RespDOB = FormatDate (DOB user),
                                 Age = Some (CalculateAge (clock k) (DOB user))\<rparr>)
                             (enumerate 0 users),
                       Total = totalRows,
                       ListPage = Page params,
                       ListPageSize = PageSize params,
                       TotalPages = total_pages totalRows (PageSize params)\<rparr>))"

definition UpdateUser ::
    "Store \<Rightarrow> 32 word \<Rightarrow> UpdateUserRequest \<Rightarrow> (error + UserResponse) \<times> Store" where
  "UpdateUser db ident req =
     (case ParseDate (UpdateDOB req) of
        None \<Rightarrow> (Inl ErrInvalidDate, db)
      | Some dob \<Rightarrow>
          (case Update db ident (UpdateName req) dob of
             (Inl err, db1) \<Rightarrow> (Inl err, db1)
           | (Inr None, db1) \<Rightarrow> (Inl ErrUserNotFound, db1)
           | (Inr (Some user), db1) \<Rightarrow>
               (Inr \<lparr>RespID = ID user, RespName = Name user,
                     RespDOB = FormatDate (DOB user), Age = None\<rparr>, db1)))"

definition DeleteUser :: "Store \<Rightarrow> 32 word \<Rightarrow> error option \<times> Store" where
  "DeleteUser db ident =
     (case Delete db ident of
        (Some err, db1) \<Rightarrow>
          (if Error err = ''sql: no rows in result set'' then (Some ErrUserNotFound, db1)
           else (Some err, db1))
      | (None, db1) \<Rightarrow> (None, db1))"

section \<open>The request context of the web framework\<close>

text \<open>
  A \<^verbatim>\<open>*fiber.Ctx\<close> as the middleware and the handlers use it: the headers of the
  request, the route parameter \<^verbatim>\<open>id\<close>, and what the response holds so far (status,
  headers, body), with the request's \<^verbatim>\<open>Locals\<close>. Header names are compared without
  regard to the case of letters, as HTTP and the framework do; no other character of a
  name is changed. \<^verbatim>\<open>c.Get\<close> reads a request header (the empty string when absent),
  \<^verbatim>\<open>c.Set\<close> writes a response header, \<^verbatim>\<open>c.Status\<close> sets the status and \<^verbatim>\<open>c.JSON\<close>
  stores the body with its content type. A JSON object is the list of its members;
  \<open>json_member\<close> looks one up by its name.
\<close>

datatype json = JString string | JInt int | JObject "(string \<times> json) list"

fun json_member :: "json \<Rightarrow> string \<Rightarrow> json option" where
  "json_member (JObject members) key = map_of members key"
| "json_member j key = None"

record Ctx =
  ReqHeaders :: "(string \<times> string) list"
  PathParam :: string
  Locals :: "(string \<times> string) list"
  Status :: nat
  RespHeaders :: "(string \<times> string) list"
  Body :: "json option"

definition ascii_lower :: "char \<Rightarrow> char" where
  "ascii_lower c =
     (case map_of (zip ''ABCDEFGHIJKLMNOPQRSTUVWXYZ'' ''abcdefghijklmnopqrstuvwxyz'') c of
        None \<Rightarrow> c
      | Some l \<Rightarrow> l)"

definition header_name_eq :: "string \<Rightarrow> string \<Rightarrow> bool" where
  "header_name_eq a b \<longleftrightarrow> map ascii_lower a = map ascii_lower b"

definition header_get :: "(string \<times> string) list \<Rightarrow> string \<Rightarrow> string option" where
  "header_get hs key = map_option snd (find (\<lambda>(k, v). header_name_eq k key) hs)"

definition header_set :: "(string \<times> string) list \<Rightarrow> string \<Rightarrow> string \<Rightarrow> (string \<times> string) list" where
  "header_set hs key val = filter (\<lambda>(k, v). \<not> header_name_eq k key) hs @ [(key, val)]"

definition ctx_Get :: "Ctx \<Rightarrow> string \<Rightarrow> string" where
  "ctx_Get c key = (case header_get (ReqHeaders c) key of None \<Rightarrow> [] | Some v \<Rightarrow> v)"

definition ctx_Set :: "Ctx \<Rightarrow> string \<Rightarrow> string \<Rightarrow> Ctx" where
  "ctx_Set c key val = c\<lparr>RespHeaders := header_set (RespHeaders c) key val\<rparr>"

definition ctx_Locals_put :: "Ctx \<Rightarrow> string \<Rightarrow> string \<Rightarrow> Ctx" where
  "ctx_Locals_put c key val = c\<lparr>Locals := (key, val) # Locals c\<rparr>"

definition ctx_Status :: "Ctx \<Rightarrow> nat \<Rightarrow> Ctx" where
  "ctx_Status c code = c\<lparr>Status := code\<rparr>"

definition ctx_JSON :: "Ctx \<Rightarrow> json \<Rightarrow> error option \<times> Ctx" where
  "ctx_JSON c v =
     (None, (ctx_Set c ''Content-Type'' ''application/json'')\<lparr>Body := Some v\<rparr>)"

text \<open>The context of a request before any middleware has run; the status starts at 200.\<close>

definition new_ctx :: "(string \<times> string) list \<Rightarrow> string \<Rightarrow> Ctx" where
  "new_ctx headers param =
     \<lparr>ReqHeaders = headers, PathParam = param, Locals = [], Status = 200,
      RespHeaders = [], Body = None\<rparr>"

section \<open>The middleware (internal/middleware/middleware.go)\<close>

text \<open>
  \<^verbatim>\<open>
  func RequestID() fiber.Handler {
      return func(c *fiber.Ctx) error {
          requestID := c.Get("X-Request-ID")
          if requestID == "" {
              requestID = uuid.New().String()
          }
          c.Set("X-Request_ID", requestID)
          c.Locals("requestID", requestID)
          return c.Next()
      }
  }
  \<close>
  The identifier \<^verbatim>\<open>uuid.New()\<close> would produce is an argument, and so is the rest of the
  chain that \<^verbatim>\<open>c.Next()\<close> runs.
\<close>

definition RequestID ::
    "string \<Rightarrow> (Ctx \<Rightarrow> error option \<times> Ctx) \<Rightarrow> Ctx \<Rightarrow> error option \<times> Ctx" where
  "RequestID uuid next c =
     (let requestID0 = ctx_Get c ''X-Request-ID'';
          requestID = (if requestID0 = [] then uuid else requestID0);
          c1 = ctx_Set c ''X-Request_ID'' requestID;
          c2 = ctx_Locals_put c1 ''requestID'' requestID
      in next c2)"

text \<open>
  \<^verbatim>\<open>
  func ErrorHandler(c *fiber.Ctx, err error) error {
      code := fiber.StatusInternalServerError
      message := "Internal Server Error"
      if e, ok := err.(*fiber.Error); ok { code = e.Code; message = e.Message }
      requestID := ""
      if id := c.Locals("requestID"); id != nil { requestID = id.(string) }
      return c.Status(code).JSON(fiber.Map{"error": message, "request_id": requestID})
  }
  \<close>
\<close>

definition ErrorHandler :: "Ctx \<Rightarrow> error \<Rightarrow> error option \<times> Ctx" where
  "ErrorHandler c err =
     (let (code, message) =
            (case err of
               FiberError n m \<Rightarrow> (n, m)
             | _ \<Rightarrow> (500, ''Internal Server Error''));
          requestID = (case map_of (Locals c) ''requestID'' of None \<Rightarrow> [] | Some ident \<Rightarrow> ident)
      in ctx_JSON (ctx_Status c code)
           (JObject [(''error'', JString message), (''request_id'', JString requestID)]))"

section \<open>The handler of GET /users/:id (internal/handler/user\_handler.go)\<close>

text \<open>
  \<^verbatim>\<open>strconv.ParseInt(idParam, 10, 32)\<close> of the Go library: an optional sign, then one
  or more decimal digits, the value within the range of \<^verbatim>\<open>int32\<close>.
\<close>

definition ParseInt32 :: "string \<Rightarrow> int option" where
  "ParseInt32 s =
     (case s of
        [] \<Rightarrow> None
      | c # cs \<Rightarrow>
          (let ds = (if c = CHR ''+'' \<or> c = CHR ''-'' then cs else s)
           in if ds = [] then None
              else (case parse_digits ds 0 of
                      None \<Rightarrow> None
                    | Some n \<Rightarrow>
                        (let v = (if c = CHR ''-'' then - int n else int n)
                         in if - 2147483648 \<le> v \<and> v \<le> 2147483647 then Some v else None))))"

text \<open>The JSON of a \<^verbatim>\<open>UserResponse\<close>; \<^verbatim>\<open>omitempty\<close> leaves out an absent age.\<close>

definition json_of_UserResponse :: "UserResponse \<Rightarrow> json" where
  "json_of_UserResponse u =
     JObject ([(''id'', JInt (sint (RespID u))), (''name'', JString (RespName u)),
               (''dob'', JString (RespDOB u))]
              @ (case Age u of None \<Rightarrow> [] | Some a \<Rightarrow> [(''age'', JInt a)]))"

text \<open>
  \<^verbatim>\<open>
  func (h *UserHandler) GetUser(c *fiber.Ctx) error {
      idParam := c.Params("id")
      id, err := strconv.ParseInt(idParam, 10, 32)
      if err != nil {
          return c.Status(fiber.StatusBadRequest).JSON(fiber.Map{"error": "Invalid user ID"})
      }
      user, err := h.service.GetUser(c.Context(), int32(id))
      if err != nil {
          if errors.Is(err, service.ErrUserNotFound) {
              return c.Status(fiber.StatusNotFound).JSON(fiber.Map{"error": "User not found"})
          }
          h.logger.Error("Failed to get user", zap.Error(err))
          return c.Status(fiber.StatusInternalServerError).JSON(
              fiber.Map{"error": "Failed to get user"})
      }
      return c.JSON(user)
  }
  \<close>
  The handler of the source and the service method are both called \<^verbatim>\<open>GetUser\<close>; the
  handler is \<open>handler_GetUser\<close> here.
\<close>

definition handler_GetUser :: "Store \<Rightarrow> Time \<Rightarrow> Ctx \<Rightarrow> error option \<times> Ctx" where
  "handler_GetUser db now c =
     (case ParseInt32 (PathParam c) of
        None \<Rightarrow> ctx_JSON (ctx_Status c 400) (JObject [(''error'', JString ''Invalid user ID'')])
      | Some v \<Rightarrow>
          (case GetUser db now (word_of_int v) of
             Inl err \<Rightarrow>
               (if err = ErrUserNotFound
                then ctx_JSON (ctx_Status c 404) (JObject [(''error'', JString ''User not found'')])
                else ctx_JSON (ctx_Status c 500)
                       (JObject [(''error'', JString ''Failed to get user'')]))
           | Inr user \<Rightarrow> ctx_JSON c (json_of_UserResponse user)))"

text \<open>
  The route of the request, from internal/routes/routes.go and cmd/server/main.go:
  \<^verbatim>\<open>
  func SetupRoutes(app *fiber.App, userHandler *handler.UserHandler) {
      api := app.Group("/api/v1")
      users := api.Group("/users")
      ...
      users.Get("/:id", userHandler.GetUser)
      ...
  }
  \<close>
  and, in \<^verbatim>\<open>main\<close>,
  \<^verbatim>\<open>
  app := fiber.New(fiber.Config{ErrorHandler: middleware.ErrorHandler, ...})
  app.Use(cors.New())
  app.Use(recover.New())
  app.Use(middleware.RequestID())
  app.Use(middleware.Logger(zapLogger))
  routes.SetupRoutes(app, userHandler)
  \<close>
  So for \<^verbatim>\<open>GET /api/v1/users/:id\<close> the middleware \<^verbatim>\<open>RequestID\<close> runs first and its
  \<^verbatim>\<open>c.Next()\<close> leads to the handler \<^verbatim>\<open>GetUser\<close>; an error that comes back from the chain
  is handed by the framework to \<^verbatim>\<open>ErrorHandler\<close>. The middleware \<^verbatim>\<open>cors\<close>, \<^verbatim>\<open>recover\<close>
  and \<^verbatim>\<open>Logger\<close> write neither the body nor a request-id header and are left out.
\<close>

definition serve_GetUser :: "string \<Rightarrow> Store \<Rightarrow> Time \<Rightarrow> Ctx \<Rightarrow> Ctx" where
  "serve_GetUser uuid db now c =
     (case RequestID uuid (handler_GetUser db now) c of
        (None, c1) \<Rightarrow> c1
      | (Some err, c1) \<Rightarrow> snd (ErrorHandler c1 err))"

section \<open>Properties of the age calculator\<close>

text \<open>
  Claim C1. For every date of birth \<open>d\<close> and reference date \<open>r\<close> the computed age is
  \<open>Year r - Year d\<close>, less one exactly when the pair \<open>(Month r, Day r)\<close> is
  lexicographically below \<open>(Month d, Day d)\<close>; on the birthday itself, where the two
  pairs are equal, the age is the plain difference of the years. The order on pairs
  is the lexicographic one of the library.
\<close>

theorem CalculateAge_lexicographic:
  "CalculateAge r d =
     Year r - Year d - (if (Month r, Day r) < (Month d, Day d) then 1 else 0)
   \<and> ((Month r, Day r) = (Month d, Day d) \<longrightarrow> CalculateAge r d = Year r - Year d)"
  by (auto simp: CalculateAge_def Let_def less_prod_def)

theorem CalculateAge_lexicographic_witness:
  "CalculateAge \<lparr>Year = 2024, Month = 5, Day = 9\<rparr> \<lparr>Year = 1990, Month = 5, Day = 10\<rparr> = 33
   \<and> (Month \<lparr>Year = 2024, Month = 5, Day = 10\<rparr>, Day \<lparr>Year = 2024, Month = 5, Day = 10\<rparr>)
       = (Month \<lparr>Year = 1990, Month = 5, Day = 10\<rparr>, Day \<lparr>Year = 1990, Month = 5, Day = 10\<rparr>)
   \<and> CalculateAge \<lparr>Year = 2024, Month = 5, Day = 10\<rparr> \<lparr>Year = 1990, Month = 5, Day = 10\<rparr> = 34"
  using CalculateAge_lexicographic [of "\<lparr>Year = 2024, Month = 5, Day = 9\<rparr>"
                                       "\<lparr>Year = 1990, Month = 5, Day = 10\<rparr>"]
        CalculateAge_lexicographic [of "\<lparr>Year = 2024, Month = 5, Day = 10\<rparr>"
                                       "\<lparr>Year = 1990, Month = 5, Day = 10\<rparr>"]
  by (simp add: less_prod_def)

text \<open>
  Claim C6. When the date of birth is on or before the reference date, the computed
  age is not negative.
\<close>

theorem CalculateAge_nonneg:
  "date_le d r \<Longrightarrow> 0 \<le> CalculateAge r d"
  by (auto simp: CalculateAge_def date_le_def Let_def less_eq_prod_def less_prod_def)

theorem CalculateAge_nonneg_witness:
  "date_le \<lparr>Year = 2024, Month = 1, Day = 1\<rparr> \<lparr>Year = 2024, Month = 1, Day = 1\<rparr>
   \<and> 0 \<le> CalculateAge \<lparr>Year = 2024, Month = 1, Day = 1\<rparr> \<lparr>Year = 2024, Month = 1, Day = 1\<rparr>
   \<and> CalculateAge \<lparr>Year = 2024, Month = 1, Day = 1\<rparr> \<lparr>Year = 2024, Month = 1, Day = 1\<rparr> = 0"
proof -
  have h: "date_le \<lparr>Year = 2024, Month = 1, Day = 1\<rparr> \<lparr>Year = 2024, Month = 1, Day = 1\<rparr>"
    by (simp add: date_le_def)
  show ?thesis
    using h CalculateAge_nonneg [OF h] by (simp add: CalculateAge_def)
qed

section \<open>A date of birth in the future\<close>

lemma CalculateAge_future: "date_less now d \<Longrightarrow> CalculateAge now d < 0"
  by (auto simp: CalculateAge_def date_less_def Let_def less_prod_def)

lemma find_append_fresh:
  "\<forall>u \<in> set xs. \<not> P u \<Longrightarrow> P x \<Longrightarrow> find P (xs @ [x]) = Some x"
  by (induction xs) auto

lemma CreateUser_then_GetUser:
  assumes "ParseDate (CreateDOB req) = Some d" and "fault db = None"
    and "1 \<le> next_id db" and "next_id db \<le> 2147483647"
    and "word_of_int (next_id db) \<notin> ID ` set (rows db)"
  shows "\<exists>resp db1. CreateUser db req = (Inr resp, db1) \<and> Age resp = None \<and>
           GetUser db1 now (RespID resp) = Inr (resp\<lparr>Age := Some (CalculateAge now d)\<rparr>)"
proof -
  let ?u = "\<lparr>ID = word_of_int (next_id db), Name = CreateName req, DOB = d,
             CreatedAt = db_now db, UpdatedAt = db_now db\<rparr>"
  have "find (\<lambda>u. ID u = word_of_int (next_id db)) (rows db @ [?u]) = Some ?u"
    using assms(5) by (intro find_append_fresh) force+
  then show ?thesis
    using assms
    by (simp add: CreateUser_def Create_def sql_insert_def Let_def GetUser_def GetById_def
          sql_select_by_id_def)
qed

text \<open>
  Claim C9. A date of birth strictly after the reference date gives a strictly negative
  age. The service checks a date of birth for its format only: with the store reachable
  and the next key free, \<open>CreateUser\<close> accepts the text of such a date, and \<open>GetUser\<close>
  for the user it created answers with the negative age.
\<close>

theorem future_dob_negative_age:
  "(date_less now d \<longrightarrow> CalculateAge now d < 0) \<and>
   (date_less now d \<and> ParseDate (CreateDOB req) = Some d \<and> fault db = None \<and>
    1 \<le> next_id db \<and> next_id db \<le> 2147483647 \<and>
    word_of_int (next_id db) \<notin> ID ` set (rows db) \<longrightarrow>
      (\<exists>resp db1 a. CreateUser db req = (Inr resp, db1) \<and>
         GetUser db1 now (RespID resp) = Inr (resp\<lparr>Age := Some a\<rparr>) \<and> a < 0))"
proof (intro conjI impI)
  assume "date_less now d"
  then show "CalculateAge now d < 0" by (rule CalculateAge_future)
next
  assume h: "date_less now d \<and> ParseDate (CreateDOB req) = Some d \<and> fault db = None \<and>
    1 \<le> next_id db \<and> next_id db \<le> 2147483647 \<and>
    word_of_int (next_id db) \<notin> ID ` set (rows db)"
  then obtain resp db1 where
    "CreateUser db req = (Inr resp, db1)"
    "GetUser db1 now (RespID resp) = Inr (resp\<lparr>Age := Some (CalculateAge now d)\<rparr>)"
    using CreateUser_then_GetUser [of req d db now] by blast
  moreover have "CalculateAge now d < 0"
    using h by (simp add: CalculateAge_future)
  ultimately show "\<exists>resp db1 a. CreateUser db req = (Inr resp, db1) \<and>
         GetUser db1 now (RespID resp) = Inr (resp\<lparr>Age := Some a\<rparr>) \<and> a < 0"
    by blast
qed

lemma ParseDate_2999: "ParseDate ''2999-01-01'' = Some \<lparr>Year = 2999, Month = 1, Day = 1\<rparr>"
  by (simp add: ParseDate_def digit_of_def valid_date_def days_in_month_def)

theorem future_dob_negative_age_witness:
  "date_less \<lparr>Year = 2024, Month = 5, Day = 10\<rparr> \<lparr>Year = 2999, Month = 1, Day = 1\<rparr> \<and>
   CalculateAge \<lparr>Year = 2024, Month = 5, Day = 10\<rparr> \<lparr>Year = 2999, Month = 1, Day = 1\<rparr> = - 975 \<and>
   (\<exists>resp db1 a.
      CreateUser \<lparr>rows = [], next_id = 1, db_now = \<lparr>Year = 2024, Month = 5, Day = 10\<rparr>,
                  fault = None\<rparr>
                 \<lparr>CreateName = ''Zed'', CreateDOB = ''2999-01-01''\<rparr> = (Inr resp, db1) \<and>
      GetUser db1 \<lparr>Year = 2024, Month = 5, Day = 10\<rparr> (RespID resp)
        = Inr (resp\<lparr>Age := Some a\<rparr>) \<and> a < 0)"
proof -
  let ?now = "\<lparr>Year = 2024, Month = 5, Day = 10\<rparr>"
  let ?d = "\<lparr>Year = 2999, Month = 1, Day = 1\<rparr>"
  let ?db = "\<lparr>rows = [], next_id = 1, db_now = ?now, fault = None\<rparr>"
  let ?req = "\<lparr>CreateName = ''Zed'', CreateDOB = ''2999-01-01''\<rparr>"
  have h: "date_less ?now ?d"
    by (simp add: date_less_def less_prod_def)
  have g: "date_less ?now ?d \<and> ParseDate (CreateDOB ?req) = Some ?d \<and> fault ?db = None \<and>
    1 \<le> next_id ?db \<and> next_id ?db \<le> 2147483647 \<and>
    word_of_int (next_id ?db) \<notin> ID ` set (rows ?db)"
    using h by (simp add: ParseDate_2999)
  have "CalculateAge ?now ?d = - 975"
    by (simp add: CalculateAge_def)
  then show ?thesis
    using h g future_dob_negative_age [of ?now ?d ?req ?db] by blast
qed

section \<open>The age across a birthday\<close>

lemma days_in_month_le_31: "days_in_month y m \<le> 31"
  by (simp add: days_in_month_def)

lemma days_in_month_not_feb: "m \<noteq> 2 \<Longrightarrow> days_in_month y m = days_in_month y' m"
  by (simp add: days_in_month_def)

lemma days_in_month_feb: "days_in_month y 2 = (if leap_year y then 29 else 28)"
  by (simp add: days_in_month_def)

lemma CalculateAge_prev_day:
  assumes "valid_date d" and "valid_date r"
  shows "CalculateAge r d = CalculateAge (prev_day r) d \<longleftrightarrow>
     (Month r, Day r) \<noteq> (Month d, Day d) \<and>
     \<not> (Month d = 2 \<and> Day d = 29 \<and> Month r = 3 \<and> Day r = 1 \<and> \<not> leap_year (Year r))"
proof -
  have dd: "1 \<le> Day d" "Day d \<le> days_in_month (Year d) (Month d)" "Day d \<le> 31"
    using assms(1) days_in_month_le_31 [of "Year d" "Month d"] by (auto simp: valid_date_def)
  consider (A) "1 < Day r" | (B) "Day r = 1 \<and> 1 < Month r" | (C) "Day r = 1 \<and> Month r = 1"
  proof -
    have "1 \<le> Day r" "1 \<le> Month r" using assms(2) by (simp_all add: valid_date_def)
    then show ?thesis using A B C by linarith
  qed
  then show ?thesis
  proof cases
    case A
    then show ?thesis
      by (auto simp: CalculateAge_def prev_day_def Let_def)
  next
    case B
    consider (later) "Month r < Month d" | (same) "Month d = Month r"
      | (before) "Month d = Month r - 1" | (earlier) "Month d < Month r - 1"
      by linarith
    then show ?thesis
    proof cases
      case later
      then show ?thesis using B by (auto simp: CalculateAge_def prev_day_def Let_def)
    next
      case same
      then show ?thesis using B dd by (auto simp: CalculateAge_def prev_day_def Let_def)
    next
      case before
      show ?thesis
      proof (cases "Month d = 2")
        case True
        then show ?thesis using B dd before
          by (auto simp: CalculateAge_def prev_day_def Let_def days_in_month_feb
                split: if_splits)
      next
        case False
        then have "days_in_month (Year r) (Month d) = days_in_month (Year d) (Month d)"
          by (rule days_in_month_not_feb)
        then show ?thesis using B dd before False
          by (auto simp: CalculateAge_def prev_day_def Let_def)
      qed
    next
      case earlier
      then show ?thesis using B by (auto simp: CalculateAge_def prev_day_def Let_def)
    qed
  next
    case C
    then show ?thesis using assms(1) dd
      by (auto simp: CalculateAge_def prev_day_def Let_def valid_date_def)
  qed
qed

text \<open>
  Claim C2, as stated, fails for a date of birth on 29 February: from 28 February 2001
  to 1 March 2001 the age of someone born on 29 February 2000 goes from 0 to 1, though
  1 March is not the day and month of birth.
\<close>

theorem age_step_leap_day_counterexample:
  "valid_date \<lparr>Year = 2000, Month = 2, Day = 29\<rparr> \<and>
   valid_date \<lparr>Year = 2001, Month = 3, Day = 1\<rparr> \<and>
   date_le \<lparr>Year = 2000, Month = 2, Day = 29\<rparr> \<lparr>Year = 2001, Month = 3, Day = 1\<rparr> \<and>
   prev_day \<lparr>Year = 2001, Month = 3, Day = 1\<rparr> = \<lparr>Year = 2001, Month = 2, Day = 28\<rparr> \<and>
   (Month \<lparr>Year = 2001, Month = 3, Day = 1\<rparr>, Day \<lparr>Year = 2001, Month = 3, Day = 1\<rparr>)
     \<noteq> (Month \<lparr>Year = 2000, Month = 2, Day = 29\<rparr>, Day \<lparr>Year = 2000, Month = 2, Day = 29\<rparr>) \<and>
   CalculateAge \<lparr>Year = 2001, Month = 3, Day = 1\<rparr> \<lparr>Year = 2000, Month = 2, Day = 29\<rparr> = 1 \<and>
   CalculateAge (prev_day \<lparr>Year = 2001, Month = 3, Day = 1\<rparr>)
     \<lparr>Year = 2000, Month = 2, Day = 29\<rparr> = 0"
  by (simp add: CalculateAge_def prev_day_def valid_date_def days_in_month_def leap_year_def
        date_le_def less_eq_prod_def)

text \<open>
  Claim C2, amended. For valid calendar dates \<open>d\<close> and \<open>r\<close> with \<open>d\<close> on or before \<open>r\<close>,
  the age at \<open>r\<close> equals the age one day earlier if and only if \<open>r\<close> does not have the
  month and day of \<open>d\<close> and is not the 1 March of a year without a leap day while \<open>d\<close>
  is a 29 February. So the age goes up once a year: on the birthday, and for a date of
  birth on 29 February on 1 March in the years that have no 29 February.
\<close>

theorem age_step_birthday:
  assumes "valid_date d" and "valid_date r" and "date_le d r"
  shows "CalculateAge r d = CalculateAge (prev_day r) d \<longleftrightarrow>
     (Month r, Day r) \<noteq> (Month d, Day d) \<and>
     \<not> (Month d = 2 \<and> Day d = 29 \<and> Month r = 3 \<and> Day r = 1 \<and> \<not> leap_year (Year r))"
  using assms(1,2) by (rule CalculateAge_prev_day)

theorem age_step_birthday_witness:
  "valid_date \<lparr>Year = 1990, Month = 5, Day = 10\<rparr> \<and>
   valid_date \<lparr>Year = 2024, Month = 5, Day = 10\<rparr> \<and>
   date_le \<lparr>Year = 1990, Month = 5, Day = 10\<rparr> \<lparr>Year = 2024, Month = 5, Day = 10\<rparr> \<and>
   CalculateAge \<lparr>Year = 2024, Month = 5, Day = 10\<rparr> \<lparr>Year = 1990, Month = 5, Day = 10\<rparr>
     \<noteq> CalculateAge (prev_day \<lparr>Year = 2024, Month = 5, Day = 10\<rparr>)
         \<lparr>Year = 1990, Month = 5, Day = 10\<rparr> \<and>
   CalculateAge \<lparr>Year = 2024, Month = 5, Day = 11\<rparr> \<lparr>Year = 1990, Month = 5, Day = 10\<rparr>
     = CalculateAge (prev_day \<lparr>Year = 2024, Month = 5, Day = 11\<rparr>)
         \<lparr>Year = 1990, Month = 5, Day = 10\<rparr>"
proof -
  let ?d = "\<lparr>Year = 1990, Month = 5, Day = 10\<rparr>"
  let ?r = "\<lparr>Year = 2024, Month = 5, Day = 10\<rparr>"
  let ?s = "\<lparr>Year = 2024, Month = 5, Day = 11\<rparr>"
  have vd: "valid_date ?d" and vr: "valid_date ?r" and vs: "valid_date ?s"
    by (simp_all add: valid_date_def days_in_month_def)
  have le: "date_le ?d ?r" and les: "date_le ?d ?s"
    by (simp_all add: date_le_def less_eq_prod_def)
  show ?thesis
    using vd vr le age_step_birthday [OF vd vr le] age_step_birthday [OF vd vs les]
    by simp
qed

section \<open>The row offset of a page\<close>

text \<open>
  Claim C10. Some page number of at least 1 and page size within 1..100 pass the
  validation of the request, which puts no upper bound on the page number, and yield
  an offset that has wrapped modulo \<open>2 ^ 32\<close> and is negative as an \<^verbatim>\<open>int32\<close>: page
  67108864 with page size 100 gives the offset \<open>- 1879048292\<close>.
\<close>

theorem GetOffset_wraps_negative:
  "validate_PaginationParams \<lparr>Page = 67108864, PageSize = 100\<rparr> \<and>
   SetDefaults \<lparr>Page = 67108864, PageSize = 100\<rparr> = \<lparr>Page = 67108864, PageSize = 100\<rparr> \<and>
   uint (GetOffset (SetDefaults \<lparr>Page = 67108864, PageSize = 100\<rparr>))
     = ((67108864 - 1) * 100) mod 2 ^ 32 \<and>
   sint (GetOffset (SetDefaults \<lparr>Page = 67108864, PageSize = 100\<rparr>)) = - 1879048292 \<and>
   (\<exists>p. validate_PaginationParams p \<and> 1 \<le> sint (Page p) \<and>
        1 \<le> sint (PageSize p) \<and> sint (PageSize p) \<le> 100 \<and>
        sint (GetOffset (SetDefaults p)) < 0)"
proof -
  let ?p = "\<lparr>Page = 67108864, PageSize = 100\<rparr> :: PaginationParams"
  have v: "validate_PaginationParams ?p"
    by (simp add: validate_PaginationParams_def)
  have sd: "SetDefaults ?p = ?p"
    by (simp add: SetDefaults_def)
  have u: "uint (GetOffset ?p) = ((67108864 - 1) * 100) mod 2 ^ 32"
    by (simp add: GetOffset_def)
  have si: "sint (GetOffset ?p) = - 1879048292"
    by (simp add: GetOffset_def)
  have "validate_PaginationParams ?p \<and> 1 \<le> sint (Page ?p) \<and>
        1 \<le> sint (PageSize ?p) \<and> sint (PageSize ?p) \<le> 100 \<and>
        sint (GetOffset (SetDefaults ?p)) < 0"
    using v by (simp add: sd si)
  then have "\<exists>p. validate_PaginationParams p \<and> 1 \<le> sint (Page p) \<and>
        1 \<le> sint (PageSize p) \<and> sint (PageSize p) \<le> 100 \<and>
        sint (GetOffset (SetDefaults p)) < 0"
    by (rule exI)
  then show ?thesis
    using v u si by (simp only: sd)
qed

section \<open>Deleting a user\<close>

lemma filter_key_absent:
  "k \<notin> f ` set xs \<Longrightarrow> filter (\<lambda>u. f u = k) xs = []"
  by (auto simp: filter_empty_conv)

lemma length_filter_key:
  "k \<in> f ` set xs \<Longrightarrow> distinct (map f xs) \<Longrightarrow> length (filter (\<lambda>u. f u = k) xs) = 1"
proof (induction xs)
  case Nil
  then show ?case by simp
next
  case (Cons x xs)
  show ?case
  proof (cases "f x = k")
    case True
    then have "k \<notin> f ` set xs" using Cons.prems(2) by auto
    then show ?thesis using True by (simp add: filter_key_absent)
  next
    case False
    then show ?thesis using Cons by auto
  qed
qed

lemma DeleteUser_absent:
  assumes "fault db = None" and "ident \<notin> ID ` set (rows db)"
  shows "DeleteUser db ident = (Some ErrUserNotFound, db)"
proof -
  have "filter (\<lambda>u. ID u = ident) (rows db) = []"
    using assms(2) by (rule filter_key_absent)
  moreover have "filter (\<lambda>u. ID u \<noteq> ident) (rows db) = rows db"
    using assms(2) by (auto simp: filter_id_conv)
  ultimately show ?thesis
    using assms(1) by (simp add: DeleteUser_def Delete_def sql_delete_def)
qed

lemma DeleteUser_present:
  assumes "fault db = None" and "ident \<in> ID ` set (rows db)"
    and "distinct (map ID (rows db))"
  shows "DeleteUser db ident = (None, db\<lparr>rows := filter (\<lambda>u. ID u \<noteq> ident) (rows db)\<rparr>)"
proof -
  have "length (filter (\<lambda>u. ID u = ident) (rows db)) = 1"
    using assms(2,3) by (rule length_filter_key)
  then show ?thesis
    using assms(1) by (simp add: DeleteUser_def Delete_def sql_delete_def)
qed

lemma DeleteUser_twice:
  assumes "fault db = None" and "ident \<in> ID ` set (rows db)"
    and "distinct (map ID (rows db))"
  shows "\<exists>db1. DeleteUser db ident = (None, db1) \<and> ident \<notin> ID ` set (rows db1) \<and>
           DeleteUser db1 ident = (Some ErrUserNotFound, db1)"
proof -
  let ?db1 = "db\<lparr>rows := filter (\<lambda>u. ID u \<noteq> ident) (rows db)\<rparr>"
  have first: "DeleteUser db ident = (None, ?db1)"
    using assms by (rule DeleteUser_present)
  have gone: "ident \<notin> ID ` set (rows ?db1)" by auto
  have "fault ?db1 = None" using assms(1) by simp
  then have "DeleteUser ?db1 ident = (Some ErrUserNotFound, ?db1)"
    using gone by (rule DeleteUser_absent)
  with first gone show ?thesis by blast
qed

lemma DeleteUser_fault:
  assumes "m \<noteq> ''sql: no rows in result set''"
  shows "DeleteUser (db\<lparr>fault := Some m\<rparr>) ident = (Some (DriverError m), db\<lparr>fault := Some m\<rparr>)"
  using assms by (simp add: DeleteUser_def Delete_def sql_delete_def)

text \<open>
  Claim C5. With the store reachable and the ids of the rows distinct (the primary
  key), \<open>DeleteUser\<close> of an id that no row has fails with \<open>ErrUserNotFound\<close> and leaves
  the store as it was; deleting the id of a stored row succeeds, removes the row, and
  deleting the same id again fails with \<open>ErrUserNotFound\<close>. A failure of the store
  comes back as the driver's error, which is not \<open>ErrUserNotFound\<close>, for every
  message other than the text of \<^verbatim>\<open>sql.ErrNoRows\<close> that the service compares with.
\<close>

theorem DeleteUser_not_found:
  assumes "fault db = None" and "distinct (map ID (rows db))"
  shows "(ident \<notin> ID ` set (rows db) \<longrightarrow> DeleteUser db ident = (Some ErrUserNotFound, db)) \<and>
         (ident \<in> ID ` set (rows db) \<longrightarrow>
            (\<exists>db1. DeleteUser db ident = (None, db1) \<and> ident \<notin> ID ` set (rows db1) \<and>
                   DeleteUser db1 ident = (Some ErrUserNotFound, db1))) \<and>
         (\<forall>m. m \<noteq> ''sql: no rows in result set'' \<longrightarrow>
            DeleteUser (db\<lparr>fault := Some m\<rparr>) ident
              = (Some (DriverError m), db\<lparr>fault := Some m\<rparr>) \<and>
            DriverError m \<noteq> ErrUserNotFound)"
  using assms DeleteUser_absent [of db ident] DeleteUser_twice [of db ident]
    DeleteUser_fault [of _ db ident]
  by simp

theorem DeleteUser_not_found_witness:
  "DeleteUser \<lparr>rows = [\<lparr>ID = 1, Name = ''Alice'', DOB = \<lparr>Year = 1990, Month = 5, Day = 10\<rparr>,
                         CreatedAt = \<lparr>Year = 2024, Month = 1, Day = 1\<rparr>,
                         UpdatedAt = \<lparr>Year = 2024, Month = 1, Day = 1\<rparr>\<rparr>],
                next_id = 2, db_now = \<lparr>Year = 2024, Month = 1, Day = 2\<rparr>, fault = None\<rparr> 1
     = (None, \<lparr>rows = [], next_id = 2, db_now = \<lparr>Year = 2024, Month = 1, Day = 2\<rparr>,
               fault = None\<rparr>) \<and>
   DeleteUser \<lparr>rows = [], next_id = 2, db_now = \<lparr>Year = 2024, Month = 1, Day = 2\<rparr>,
               fault = None\<rparr> 1
     = (Some ErrUserNotFound,
        \<lparr>rows = [], next_id = 2, db_now = \<lparr>Year = 2024, Month = 1, Day = 2\<rparr>, fault = None\<rparr>) \<and>
   DeleteUser \<lparr>rows = [], next_id = 2, db_now = \<lparr>Year = 2024, Month = 1, Day = 2\<rparr>,
               fault = Some ''pq: connection refused''\<rparr> 1
     = (Some (DriverError ''pq: connection refused''),
        \<lparr>rows = [], next_id = 2, db_now = \<lparr>Year = 2024, Month = 1, Day = 2\<rparr>,
         fault = Some ''pq: connection refused''\<rparr>)"
proof -
  let ?u = "\<lparr>ID = 1, Name = ''Alice'', DOB = \<lparr>Year = 1990, Month = 5, Day = 10\<rparr>,
             CreatedAt = \<lparr>Year = 2024, Month = 1, Day = 1\<rparr>,
             UpdatedAt = \<lparr>Year = 2024, Month = 1, Day = 1\<rparr>\<rparr>"
  let ?db = "\<lparr>rows = [?u], next_id = 2, db_now = \<lparr>Year = 2024, Month = 1, Day = 2\<rparr>,
              fault = None\<rparr>"
  let ?db1 = "\<lparr>rows = [], next_id = 2, db_now = \<lparr>Year = 2024, Month = 1, Day = 2\<rparr>,
               fault = None\<rparr>"
  have r: "fault ?db = None" and d: "distinct (map ID (rows ?db))" by simp_all
  have r1: "fault ?db1 = None" and d1: "distinct (map ID (rows ?db1))" by simp_all
  have first: "DeleteUser ?db 1 = (None, ?db1)"
    by (simp add: DeleteUser_def Delete_def sql_delete_def)
  show ?thesis
    using first DeleteUser_not_found [OF r d, of 1] DeleteUser_not_found [OF r1 d1, of 1]
    by simp
qed

section \<open>The age field of the responses\<close>

lemma scan_rows_Inr: "scan_rows (map Inr us) acc = Inr (acc @ us)"
  by (induction us arbitrary: acc) auto

lemma CreateUser_no_age: "CreateUser db req = (Inr resp, db1) \<Longrightarrow> Age resp = None"
  by (auto simp: CreateUser_def split: option.splits prod.splits sum.splits)

lemma UpdateUser_no_age: "UpdateUser db ident ureq = (Inr resp, db1) \<Longrightarrow> Age resp = None"
  by (auto simp: UpdateUser_def split: option.splits prod.splits sum.splits)

lemma GetUser_age: "GetUser db now ident = Inr resp \<Longrightarrow> \<exists>a. Age resp = Some a"
  by (auto simp: GetUser_def Let_def split: option.splits sum.splits)

lemma ListUsers_age:
  "ListUsers db clock params = Inr lr \<Longrightarrow> u \<in> set (Users lr) \<Longrightarrow> \<exists>a. Age u = Some a"
  by (auto simp: ListUsers_def Let_def split: sum.splits)

lemma json_of_UserResponse_age:
  "json_member (json_of_UserResponse u) ''age'' = map_option JInt (Age u)"
  by (simp add: json_of_UserResponse_def split: option.splits)

text \<open>
  Claim C4. Every successful result of \<open>CreateUser\<close> and of \<open>UpdateUser\<close> has no age,
  every successful result of \<open>GetUser\<close> has one, and so has every element of a
  successful result of \<open>ListUsers\<close>. The JSON of a response has the member "age"
  exactly when the response has an age.
\<close>

theorem age_field_presence:
  "(CreateUser db req = (Inr resp, db1) \<longrightarrow> Age resp = None) \<and>
   (UpdateUser db ident ureq = (Inr resp, db1) \<longrightarrow> Age resp = None) \<and>
   (GetUser db now ident = Inr resp \<longrightarrow> Age resp \<noteq> None) \<and>
   (ListUsers db clock params = Inr lr \<longrightarrow> (\<forall>u \<in> set (Users lr). Age u \<noteq> None)) \<and>
   json_member (json_of_UserResponse resp) ''age'' = map_option JInt (Age resp)"
  using CreateUser_no_age [of db req resp db1] UpdateUser_no_age [of db ident ureq resp db1]
    GetUser_age [of db now ident resp] ListUsers_age [of db clock params lr]
    json_of_UserResponse_age [of resp]
  by auto

lemma ParseDate_1990: "ParseDate ''1990-05-10'' = Some \<lparr>Year = 1990, Month = 5, Day = 10\<rparr>"
  by (simp add: ParseDate_def digit_of_def valid_date_def days_in_month_def)

lemma ParseDate_1991: "ParseDate ''1991-12-25'' = Some \<lparr>Year = 1991, Month = 12, Day = 25\<rparr>"
  by (simp add: ParseDate_def digit_of_def valid_date_def days_in_month_def)

theorem age_field_presence_witness:
  "(\<exists>resp db1.
      CreateUser \<lparr>rows = [], next_id = 1, db_now = \<lparr>Year = 2024, Month = 5, Day = 10\<rparr>,
                  fault = None\<rparr>
                 \<lparr>CreateName = ''Alice'', CreateDOB = ''1990-05-10''\<rparr> = (Inr resp, db1) \<and>
      Age resp = None \<and>
      (\<exists>resp2 db2.
         UpdateUser db1 1 \<lparr>UpdateName = ''Alice B'', UpdateDOB = ''1991-12-25''\<rparr>
           = (Inr resp2, db2) \<and> Age resp2 = None) \<and>
      (\<exists>resp3. GetUser db1 \<lparr>Year = 2024, Month = 5, Day = 10\<rparr> 1 = Inr resp3 \<and>
         Age resp3 = Some 34) \<and>
      (\<exists>lr. ListUsers db1 (\<lambda>k. \<lparr>Year = 2024, Month = 5, Day = 10\<rparr>) \<lparr>Page = 0, PageSize = 0\<rparr>
               = Inr lr \<and> map Age (Users lr) = [Some 34]))"
proof -
  let ?now = "\<lparr>Year = 2024, Month = 5, Day = 10\<rparr>"
  let ?db = "\<lparr>rows = [], next_id = 1, db_now = ?now, fault = None\<rparr>"
  let ?u = "\<lparr>ID = 1, Name = ''Alice'', DOB = \<lparr>Year = 1990, Month = 5, Day = 10\<rparr>,
             CreatedAt = ?now, UpdatedAt = ?now\<rparr>"
  let ?db1 = "\<lparr>rows = [?u], next_id = 2, db_now = ?now, fault = None\<rparr>"
  let ?resp = "\<lparr>RespID = 1, RespName = ''Alice'',
                RespDOB = FormatDate \<lparr>Year = 1990, Month = 5, Day = 10\<rparr>, Age = None\<rparr>"
  let ?u2 = "\<lparr>ID = 1, Name = ''Alice B'', DOB = \<lparr>Year = 1991, Month = 12, Day = 25\<rparr>,
              CreatedAt = ?now, UpdatedAt = ?now\<rparr>"
  let ?resp2 = "\<lparr>RespID = 1, RespName = ''Alice B'',
                 RespDOB = FormatDate \<lparr>Year = 1991, Month = 12, Day = 25\<rparr>, Age = None\<rparr>"
  let ?db2 = "\<lparr>rows = [?u2], next_id = 2, db_now = ?now, fault = None\<rparr>"
  let ?resp3 = "?resp\<lparr>Age := Some 34\<rparr>"
  let ?clock = "\<lambda>k::nat. ?now"
  let ?p = "\<lparr>Page = 0, PageSize = 0\<rparr>"
  let ?lr = "\<lparr>Users = [?resp3], Total = 1, ListPage = 1, ListPageSize = 10,
              TotalPages = total_pages 1 10\<rparr>"
  have c: "CreateUser ?db \<lparr>CreateName = ''Alice'', CreateDOB = ''1990-05-10''\<rparr>
             = (Inr ?resp, ?db1)"
    by (simp add: CreateUser_def ParseDate_1990 Create_def sql_insert_def Let_def)
  have up: "UpdateUser ?db1 1 \<lparr>UpdateName = ''Alice B'', UpdateDOB = ''1991-12-25''\<rparr>
             = (Inr ?resp2, ?db2)"
    by (simp add: UpdateUser_def ParseDate_1991 Update_def sql_update_def Let_def)
  have g: "GetUser ?db1 ?now 1 = Inr ?resp3"
    by (simp add: GetUser_def GetById_def sql_select_by_id_def CalculateAge_def Let_def)
  have l: "ListUsers ?db1 ?clock ?p = Inr ?lr"
    by (simp add: ListUsers_def SetDefaults_def GetLimit_def GetOffset_def List_def
          sql_select_page_def Count_def sql_count_def CalculateAge_def enumerate_eq_zip Let_def)
  have "Age ?resp = None"
    using c age_field_presence [of ?db _ ?resp ?db1] by blast
  moreover have "Age ?resp2 = None"
    using up age_field_presence [of ?db1 _ ?resp2 ?db2 1] by blast
  moreover have "Age ?resp3 = Some 34" by simp
  moreover have "map Age (Users ?lr) = [Some 34]" by simp
  ultimately show ?thesis
    using c up g l
    by (intro exI [of _ ?resp] exI [of _ ?db1]) simp
qed

section \<open>The request id on the response\<close>

lemma header_names:
  "\<not> header_name_eq ''X-Request_ID'' ''X-Request-ID''"
  "\<not> header_name_eq ''Content-Type'' ''X-Request-ID''"
  "\<not> header_name_eq ''Content-Type'' ''X-Request_ID''"
  by (simp_all add: header_name_eq_def ascii_lower_def)

lemma header_name_eq_refl: "header_name_eq k k"
  by (simp add: header_name_eq_def)

lemma header_get_set:
  "header_get (header_set hs key val) key' =
     (if header_name_eq key key' then Some val else header_get hs key')"
  by (induction hs) (auto simp: header_get_def header_set_def header_name_eq_def)

lemma handler_GetUser_headers:
  "RespHeaders (snd (handler_GetUser db now c)) =
     header_set (RespHeaders c) ''Content-Type'' ''application/json''"
  by (simp add: handler_GetUser_def ctx_JSON_def ctx_Set_def ctx_Status_def
        split: option.splits sum.splits)

lemma handler_GetUser_no_error: "fst (handler_GetUser db now c) = None"
  by (simp add: handler_GetUser_def ctx_JSON_def split: option.splits sum.splits)

lemma handler_GetUser_pair:
  "handler_GetUser db now c = (None, snd (handler_GetUser db now c))"
  using handler_GetUser_no_error [of db now c] by (cases "handler_GetUser db now c") simp

text \<open>
  The handler never hands an error back, so \<open>ErrorHandler\<close> does not run for this
  route: the response is the handler's, on the context \<open>RequestID\<close> prepared.
\<close>

lemma serve_GetUser_eq:
  "serve_GetUser uuid db now c =
     snd (handler_GetUser db now
       (ctx_Locals_put
          (ctx_Set c ''X-Request_ID''
             (if ctx_Get c ''X-Request-ID'' = [] then uuid else ctx_Get c ''X-Request-ID''))
          ''requestID''
          (if ctx_Get c ''X-Request-ID'' = [] then uuid else ctx_Get c ''X-Request-ID'')))"
  unfolding serve_GetUser_def RequestID_def Let_def
  by (subst handler_GetUser_pair) simp

text \<open>
  Claim C7 says that every response carries the request id in a header named
  X-Request-ID. The middleware reads the request's header of that name but writes the
  id under the name X-Request\_ID, with an underscore: for every request to this
  route the response has no header X-Request-ID, and has the id, the caller's or the
  generated one, under X-Request\_ID.
\<close>

theorem RequestID_header_name:
  "header_get (RespHeaders (serve_GetUser uuid db now (new_ctx headers param)))
     ''X-Request-ID'' = None \<and>
   header_get (RespHeaders (serve_GetUser uuid db now (new_ctx headers param)))
     ''X-Request_ID''
     = Some (if ctx_Get (new_ctx headers param) ''X-Request-ID'' = [] then uuid
             else ctx_Get (new_ctx headers param) ''X-Request-ID'')"
proof -
  have "header_get (RespHeaders (new_ctx headers param)) ''X-Request-ID'' = None"
    by (simp add: new_ctx_def header_get_def)
  then show ?thesis
    by (simp add: serve_GetUser_eq handler_GetUser_headers header_get_set header_names
          header_name_eq_refl ctx_Locals_put_def ctx_Set_def)
qed

section \<open>The body of an error response\<close>

lemma ParseInt32_abc: "ParseInt32 ''abc'' = None"
  by (simp add: ParseInt32_def digit_of_def)

text \<open>The body that \<open>ErrorHandler\<close> writes does carry the request id of the context.\<close>

lemma ErrorHandler_request_id:
  "\<exists>b. Body (snd (ErrorHandler c err)) = Some b \<and>
       json_member b ''request_id''
         = Some (JString (case map_of (Locals c) ''requestID'' of None \<Rightarrow> [] | Some i \<Rightarrow> i))"
  by (simp add: ErrorHandler_def ctx_JSON_def ctx_Set_def ctx_Status_def Let_def
        split: error.splits prod.splits)

text \<open>
  Claim C8 says that every response that is not a success carries the request id in
  its body. The handler writes its own error bodies, with the member "error" alone:
  a request for the user "abc" is answered with status 400 and a body that has no
  member "request\_id", whatever the store, the clock and the request's headers are.
\<close>

theorem GetUser_invalid_id_response:
  "Status (serve_GetUser uuid db now (new_ctx headers ''abc'')) = 400 \<and>
   Body (serve_GetUser uuid db now (new_ctx headers ''abc''))
     = Some (JObject [(''error'', JString ''Invalid user ID'')]) \<and>
   json_member (JObject [(''error'', JString ''Invalid user ID'')]) ''request_id'' = None"
  by (simp add: serve_GetUser_eq handler_GetUser_def ParseInt32_abc ctx_Locals_put_def
        ctx_Set_def new_ctx_def ctx_JSON_def ctx_Status_def)

section \<open>The page count\<close>

text \<open>
  Powers of two, the exponent of a positive rational, and rounding to the nearest
  integer: the facts about the model of \<^verbatim>\<open>float64\<close> that the page count rests on.
\<close>

lemma pow2_powi: "pow2 e = 2 powi e"
  by (simp add: pow2_def power_int_def power_one_over inverse_eq_divide)

lemma pow2_pos: "0 < pow2 e"
  by (simp add: pow2_powi)

lemma pow2_add: "pow2 (a + b) = pow2 a * pow2 b"
  by (simp add: pow2_powi power_int_add)

lemma pow2_diff: "pow2 (a - b) = pow2 a / pow2 b"
  by (simp add: pow2_powi power_int_diff)

lemma pow2_mono: "a \<le> b \<Longrightarrow> pow2 a \<le> pow2 b"
  by (simp add: pow2_powi power_int_increasing)

lemma pow2_less_imp: "pow2 a < pow2 b \<Longrightarrow> a < b"
  using pow2_mono [of b a] by (cases "a < b") auto

lemma pow2_nat: "0 \<le> e \<Longrightarrow> pow2 e = 2 ^ nat e"
  by (simp add: pow2_def)

lemma f64_exponent_bounds:
  assumes "0 < a"
  shows "pow2 (f64_exponent a) \<le> a \<and> a < pow2 (f64_exponent a + 1)"
proof -
  obtain p q where pq: "quotient_of a = (p, q)" by (cases "quotient_of a")
  then have q: "0 < q" and a: "a = of_int p / of_int q"
    by (auto dest: quotient_of_denom_pos quotient_of_div)
  have p: "0 < p"
    using assms q a by (simp add: zero_less_divide_iff)
  define b where "b = bitlen p - bitlen q"
  have bp: "1 \<le> bitlen p" and bq: "1 \<le> bitlen q"
    using p q bitlen_eq_zero_iff [of p] bitlen_eq_zero_iff [of q] bitlen_nonneg [of p] bitlen_nonneg [of q]
    by linarith+
  have "2 ^ nat (bitlen p - 1) \<le> p" "p < 2 ^ nat (bitlen p)"
       "2 ^ nat (bitlen q - 1) \<le> q" "q < 2 ^ nat (bitlen q)"
    using bitlen_bounds [OF p] bitlen_bounds [OF q] by auto
  then have "(2::rat) ^ nat (bitlen p - 1) \<le> of_int p" "(of_int p :: rat) < 2 ^ nat (bitlen p)"
       "(2::rat) ^ nat (bitlen q - 1) \<le> of_int q" "(of_int q :: rat) < 2 ^ nat (bitlen q)"
    by (metis of_int_le_iff of_int_less_iff of_int_numeral of_int_power)+
  then have P: "pow2 (bitlen p - 1) \<le> of_int p" "of_int p < pow2 (bitlen p)"
    and Q: "pow2 (bitlen q - 1) \<le> of_int q" "of_int q < pow2 (bitlen q)"
    using bp bq by (simp_all add: pow2_nat)
  have qpos: "(0::rat) < of_int q" using q by simp
  have lo: "pow2 (b - 1) < a"
  proof -
    have "pow2 (b - 1) = pow2 (bitlen p - 1) / pow2 (bitlen q)"
      by (simp add: b_def pow2_diff [symmetric] algebra_simps)
    also have "\<dots> \<le> of_int p / pow2 (bitlen q)"
      using P(1) pow2_pos [of "bitlen q"] by (simp add: divide_right_mono)
    also have "\<dots> < of_int p / of_int q"
      using Q(2) qpos p by (simp add: divide_strict_left_mono pow2_pos)
    finally show ?thesis by (simp add: a)
  qed
  have hi: "a < pow2 (b + 1)"
  proof -
    have "a = of_int p / of_int q" by (rule a)
    also have "\<dots> \<le> of_int p / pow2 (bitlen q - 1)"
      using Q(1) p pow2_pos [of "bitlen q - 1"] by (simp add: divide_left_mono)
    also have "\<dots> < pow2 (bitlen p) / pow2 (bitlen q - 1)"
      using P(2) pow2_pos [of "bitlen q - 1"] by (simp add: divide_strict_right_mono)
    also have "\<dots> = pow2 (b + 1)"
      by (simp add: b_def pow2_diff [symmetric] algebra_simps)
    finally show ?thesis .
  qed
  have "f64_exponent a = (if pow2 b \<le> a then b else b - 1)"
    by (simp add: f64_exponent_def pq b_def Let_def)
  then show ?thesis
    using lo hi by (auto simp: not_le)
qed

lemma f64_exponent_unique:
  assumes "pow2 l \<le> a" and "a < pow2 (l + 1)"
  shows "f64_exponent a = l"
proof -
  have "0 < a" using assms(1) pow2_pos [of l] by linarith
  then have b: "pow2 (f64_exponent a) \<le> a" "a < pow2 (f64_exponent a + 1)"
    using f64_exponent_bounds by auto
  have "pow2 l < pow2 (f64_exponent a + 1)" using assms(1) b(2) by linarith
  then have "l < f64_exponent a + 1" by (rule pow2_less_imp)
  moreover have "pow2 (f64_exponent a) < pow2 (l + 1)" using assms(2) b(1) by linarith
  then have "f64_exponent a < l + 1" by (rule pow2_less_imp)
  ultimately show ?thesis by linarith
qed


lemma round_half_even_close: "\<bar>of_int (round_half_even m) - m\<bar> \<le> 1 / 2"
proof -
  have "of_int \<lfloor>m\<rfloor> \<le> m" "m < of_int \<lfloor>m\<rfloor> + 1" by linarith+
  then show ?thesis
    by (auto simp: round_half_even_def Let_def)
qed

lemma round_half_even_le:
  assumes "m \<le> of_int k"
  shows "round_half_even m \<le> k"
proof -
  have "of_int (round_half_even m) \<le> m + 1 / 2"
    using round_half_even_close [of m] by linarith
  then have "(of_int (round_half_even m) :: rat) < of_int k + 1"
    using assms by linarith
  then have "(of_int (round_half_even m) :: rat) < of_int (k + 1)" by simp
  then have "round_half_even m < k + 1" by (simp only: of_int_less_iff)
  then show ?thesis by simp
qed

lemma round_half_even_gt:
  assumes "of_int k + 1 / 2 < m"
  shows "k < round_half_even m"
proof -
  have "m - 1 / 2 \<le> of_int (round_half_even m)"
    using round_half_even_close [of m] by linarith
  then have "(of_int k :: rat) < of_int (round_half_even m)"
    using assms by linarith
  then show ?thesis by (simp only: of_int_less_iff)
qed

lemma round_half_even_of_int: "round_half_even (of_int k) = k"
  by (simp add: round_half_even_def)

lemma pow2_nonpos: "e \<le> 0 \<Longrightarrow> pow2 e = 1 / 2 ^ nat (- e)"
  by (cases "e = 0") (simp_all add: pow2_def)

lemma f64_of_int_exact:
  assumes "0 \<le> i" and "i < 2 ^ 53"
  shows "f64_of_int i = Finite (of_int i)"
proof (cases "i = 0")
  case True
  then show ?thesis by (simp add: f64_of_int_def f64_round_def)
next
  case False
  define a :: rat where "a = of_int i"
  have apos: "0 < a" using assms(1) False by (simp add: a_def)
  define e where "e = max (f64_exponent a - 52) (- 1074)"
  have "a < pow2 53"
    using assms(2) by (simp add: a_def pow2_def)
  then have "pow2 (f64_exponent a) < pow2 53"
    using f64_exponent_bounds [OF apos] by linarith
  then have "f64_exponent a < 53" by (rule pow2_less_imp)
  then have e: "e \<le> 0" by (simp add: e_def)
  define k where "k = nat (- e)"
  have p: "pow2 e = 1 / 2 ^ k" using e by (simp add: pow2_nonpos k_def)
  have "a / pow2 e = of_int (i * 2 ^ k)" by (simp add: p a_def)
  then have "round_half_even (a / pow2 e) = i * 2 ^ k"
    by (simp only: round_half_even_of_int)
  then have y: "of_int (round_half_even (a / pow2 e)) * pow2 e = a"
    by (simp add: p a_def)
  have "a < 2 ^ 1024"
  proof -
    have "a < 2 ^ 53" using assms(2) unfolding a_def by (metis of_int_less_iff of_int_numeral of_int_power)
    also have "(2::rat) ^ 53 \<le> 2 ^ 1024" by (rule power_increasing) simp_all
    finally show ?thesis .
  qed
  then have "\<not> 2 ^ 1024 \<le> a" by simp
  then show ?thesis
    using apos y
    by (simp add: f64_of_int_def f64_round_def Let_def a_def [symmetric] e_def [symmetric])
qed

lemma f64_round_quotient:
  assumes "0 < t" and "t < 2 ^ 53" and "1 \<le> s" and "s \<le> 100"
  shows "\<exists>y. f64_round (of_int t / of_int s) = Finite y \<and> \<lceil>y\<rceil> = \<lceil>(of_int t :: rat) / of_int s\<rceil>"
proof -
  define x :: rat where "x = of_int t / of_int s"
  define c where "c = \<lceil>x\<rceil>"
  have spos: "(0::rat) < of_int s" using assms(3) by simp
  have xpos: "0 < x" using assms(1) spos by (simp add: x_def)
  have xt: "x \<le> of_int t"
  proof -
    have "(1::rat) \<le> of_int s" using assms(3) by simp
    then have "of_int t / of_int s \<le> (of_int t :: rat) / 1"
      using assms(1) by (intro divide_left_mono) simp_all
    then show ?thesis by (simp add: x_def)
  qed
  have t53: "(of_int t :: rat) < pow2 53"
    using assms(2) by (simp add: pow2_def)
  define l where "l = f64_exponent x"
  define e where "e = max (l - 52) (- 1074)"
  have lx: "pow2 l \<le> x"
    unfolding l_def using f64_exponent_bounds [OF xpos] by simp
  then have "pow2 l < pow2 53" using xt t53 by linarith
  then have l53: "l < 53" by (rule pow2_less_imp)
  then have e: "e \<le> 0" by (simp add: e_def)
  define k where "k = nat (- e)"
  have p: "pow2 e = 1 / 2 ^ k" using e by (simp add: pow2_nonpos k_def)
  have p2: "2 ^ k = pow2 (- e)" using e by (simp add: pow2_nat k_def)
  have sk: "of_int s < 2 * (2::rat) ^ k"
  proof (cases "e = l - 52")
    case True
    have "pow2 l * of_int s \<le> of_int t"
      using lx spos by (simp add: x_def pos_le_divide_eq)
    then have "pow2 l * of_int s < pow2 53" using t53 by linarith
    then have "of_int s < pow2 53 / pow2 l"
      using pow2_pos [of l] by (simp add: pos_less_divide_eq mult.commute)
    moreover have "pow2 53 / pow2 l = 2 * 2 ^ k"
    proof -
      have "53 - l = 1 + (- e)" using True by simp
      then have "pow2 (53 - l) = pow2 1 * pow2 (- e)" by (simp only: pow2_add)
      moreover have "pow2 1 = 2" by (simp add: pow2_def)
      ultimately show ?thesis by (simp add: pow2_diff p2)
    qed
    ultimately show ?thesis by simp
  next
    case False
    then have "e = - 1074" by (auto simp: e_def max_def split: if_splits)
    then have "k = 1074" by (simp add: k_def)
    moreover have "(of_int s :: rat) \<le> 100" using assms(4) by (metis of_int_le_iff of_int_numeral)
    moreover have "(100::rat) < 2 * 2 ^ 1074"
    proof -
      have "(2::rat) ^ 7 \<le> 2 ^ 1074" by (rule power_increasing) simp_all
      then show ?thesis by simp
    qed
    ultimately show ?thesis by simp
  qed
  define N where "N = round_half_even (x / pow2 e)"
  define y where "y = of_int N * pow2 e"
  have m: "x / pow2 e = x * 2 ^ k" by (simp add: p)
  have xc: "x \<le> of_int c" by (simp add: c_def)
  have upper: "y \<le> of_int c"
  proof -
    have "x * 2 ^ k \<le> of_int c * 2 ^ k" using xc by simp
    then have "x * 2 ^ k \<le> of_int (c * 2 ^ k)" by simp
    then have "N \<le> c * 2 ^ k" unfolding N_def m by (rule round_half_even_le)
    then have "(of_int N :: rat) \<le> of_int (c * 2 ^ k)" by (simp only: of_int_le_iff)
    then have "(of_int N :: rat) / 2 ^ k \<le> of_int c"
      by (simp add: divide_le_eq)
    then show ?thesis by (simp add: y_def p)
  qed
  have step: "of_int (c - 1) + 1 / of_int s \<le> x"
  proof -
    have "of_int (c - 1) < x" unfolding c_def by linarith
    then have "of_int (c - 1) * of_int s < (of_int t :: rat)"
      using spos by (simp add: x_def pos_less_divide_eq)
    then have "(of_int ((c - 1) * s) :: rat) < of_int t" by simp
    then have "(c - 1) * s < t" by (simp only: of_int_less_iff)
    then have "(c - 1) * s + 1 \<le> t" by simp
    then have "(of_int ((c - 1) * s + 1) :: rat) \<le> of_int t" by (simp only: of_int_le_iff)
    then have "of_int (c - 1) * of_int s + 1 \<le> (of_int t :: rat)" by simp
    then have "(of_int (c - 1) * of_int s + 1) / of_int s \<le> x"
      using spos by (simp add: x_def divide_right_mono)
    then show ?thesis using spos by (simp add: add_divide_distrib)
  qed
  have lower: "of_int (c - 1) < y"
  proof -
    have "(of_int (c - 1) + 1 / of_int s) * 2 ^ k \<le> x * 2 ^ k" using step by simp
    then have "of_int ((c - 1) * 2 ^ k) + 2 ^ k / of_int s \<le> x * 2 ^ k"
      by (simp add: algebra_simps)
    moreover have "(1::rat) / 2 < 2 ^ k / of_int s"
      using sk spos by (simp add: pos_less_divide_eq)
    ultimately have "of_int ((c - 1) * 2 ^ k) + 1 / 2 < x * 2 ^ k" by linarith
    then have "(c - 1) * 2 ^ k < N" unfolding N_def m by (rule round_half_even_gt)
    then have "(of_int ((c - 1) * 2 ^ k) :: rat) < of_int N" by (simp only: of_int_less_iff)
    then have "of_int (c - 1) < (of_int N :: rat) / 2 ^ k"
      by (simp add: less_divide_eq)
    then show ?thesis by (simp add: y_def p)
  qed
  have ceil: "\<lceil>y\<rceil> = c"
    using lower upper by (intro ceiling_unique) simp_all
  have "y < 2 ^ 1024"
  proof -
    have "of_int c < x + 1" unfolding c_def by linarith
    then have "y < of_int t + 1" using upper xt by linarith
    also have "\<dots> < 2 ^ 53 + 1" using t53 by (simp add: pow2_def)
    also have "\<dots> \<le> (2::rat) ^ 1024" by simp
    finally show ?thesis .
  qed
  then have "\<not> 2 ^ 1024 \<le> y" by simp
  then have "f64_round x = Finite y"
    using xpos
    by (simp add: f64_round_def Let_def l_def [symmetric] e_def [symmetric] N_def [symmetric]
          y_def [symmetric])
  then show ?thesis using ceil by (simp add: x_def c_def)
qed

lemma ceiling_real_rat:
  "\<lceil>real_of_int a / real_of_int b\<rceil> = \<lceil>rat_of_int a / rat_of_int b\<rceil>"
  by (simp add: ceiling_divide_eq_div)

lemma page_count_int:
  assumes "0 \<le> t" and "t < 2 ^ 53" and "1 \<le> s" and "s \<le> 100"
  shows "sint (int_of_f64 (f64_ceil (f64_div (f64_of_int t) (f64_of_int s))))
           = \<lceil>rat_of_int t / rat_of_int s\<rceil>"
proof -
  have fs: "f64_of_int s = Finite (of_int s)"
    using assms(3,4) by (intro f64_of_int_exact) simp_all
  have sne: "rat_of_int s \<noteq> 0" using assms(3) by simp
  show ?thesis
  proof (cases "t = 0")
    case True
    have "f64_div (Finite 0) (Finite (of_int s)) = Finite 0"
      using sne by (simp add: f64_round_def)
    moreover have "f64_of_int 0 = Finite 0"
      by (simp add: f64_of_int_def f64_round_def)
    ultimately show ?thesis
      using True by (simp add: fs)
  next
    case False
    then have tpos: "0 < t" using assms(1) by simp
    define c where "c = \<lceil>rat_of_int t / rat_of_int s\<rceil>"
    obtain y where y: "f64_round (of_int t / of_int s) = Finite y" "\<lceil>y\<rceil> = c"
      using f64_round_quotient [OF tpos assms(2,3,4)] unfolding c_def by blast
    have ft: "f64_of_int t = Finite (of_int t)"
      using assms(1,2) by (intro f64_of_int_exact) simp_all
    have q0: "0 \<le> rat_of_int t / rat_of_int s"
      using tpos assms(3) by (simp add: divide_nonneg_pos)
    have c0: "0 \<le> c"
    proof -
      have "rat_of_int 0 \<le> of_int c" using q0 unfolding c_def by linarith
      then show ?thesis by (simp only: of_int_le_iff)
    qed
    have "rat_of_int t / rat_of_int s \<le> rat_of_int t"
    proof -
      have "(1::rat) \<le> of_int s" using assms(3) by simp
      then have "of_int t / of_int s \<le> (of_int t :: rat) / 1"
        using tpos by (intro divide_left_mono) simp_all
      then show ?thesis by simp
    qed
    then have "c \<le> t" unfolding c_def by (simp add: ceiling_le_iff)
    then have c63: "c < 2 ^ 63" using assms(2) by simp
    have "int_of_f64 (f64_ceil (f64_div (f64_of_int t) (f64_of_int s))) = word_of_int c"
      using sne c0 c63 by (simp add: ft fs y)
    then have "sint (int_of_f64 (f64_ceil (f64_div (f64_of_int t) (f64_of_int s)))) = c"
      using c0 c63 by (simp add: sint_sbintrunc' signed_take_bit_int_eq_self)
    then show ?thesis by (simp add: c_def)
  qed
qed

lemma total_pages_exact:
  assumes "0 \<le> sint t" and "sint t < 2 ^ 53" and "1 \<le> sint s" and "sint s \<le> 100"
  shows "sint (total_pages t s) = \<lceil>real_of_int (sint t) / real_of_int (sint s)\<rceil>"
  unfolding total_pages_def ceiling_real_rat
  using assms by (rule page_count_int)

text \<open>
  Beyond 53 bits the conversion \<^verbatim>\<open>float64(total)\<close> rounds, and the bound above cannot
  be raised: at \<open>2 ^ 53 + 1\<close> with page size 1 the expression yields \<open>2 ^ 53\<close>.
\<close>

lemma f64_of_int_2_53_1: "f64_of_int 9007199254740993 = Finite 9007199254740992"
proof -
  have e: "f64_exponent 9007199254740993 = 53"
    by (rule f64_exponent_unique) (simp_all add: pow2_def)
  have "\<lfloor>9007199254740993 / 2 :: rat\<rfloor> = 4503599627370496"
    by (rule floor_unique) simp_all
  then have r: "round_half_even (9007199254740993 / 2) = 4503599627370496"
    by (simp add: round_half_even_def Let_def)
  show ?thesis
    by (simp add: f64_of_int_def f64_round_def e pow2_def r)
qed

lemma f64_round_2_53: "f64_round 9007199254740992 = Finite 9007199254740992"
proof -
  have e: "f64_exponent 9007199254740992 = 53"
    by (rule f64_exponent_unique) (simp_all add: pow2_def)
  have "round_half_even (rat_of_int 4503599627370496) = 4503599627370496"
    by (rule round_half_even_of_int)
  then have r: "round_half_even 4503599627370496 = 4503599627370496"
    by simp
  show ?thesis
    by (simp add: f64_round_def e pow2_def r)
qed

lemma total_pages_beyond_53_bits:
  "sint (total_pages 9007199254740993 1) = 9007199254740992"
proof -
  have b: "f64_of_int 1 = Finite 1"
    using f64_of_int_exact [of 1] by simp
  have "total_pages 9007199254740993 1 = 9007199254740992"
    by (simp add: total_pages_def f64_of_int_2_53_1 b f64_round_2_53)
  then show ?thesis by simp
qed

text \<open>
  The count that \<open>ListUsers\<close> divides is the number of rows of the table, and the
  primary key, an \<^verbatim>\<open>int32\<close>, lets the table hold at most \<open>2 ^ 32\<close> rows.
\<close>

lemma length_distinct_words:
  fixes f :: "'a \<Rightarrow> 32 word"
  assumes "distinct (map f xs)"
  shows "length xs \<le> 2 ^ 32"
proof -
  have "length xs = card (set (map f xs))"
    using assms distinct_card [of "map f xs"] by simp
  also have "\<dots> \<le> card (UNIV :: 32 word set)"
    by (rule card_mono) simp_all
  also have "\<dots> = 2 ^ 32" by (simp add: card_word)
  finally show ?thesis .
qed


lemma sint_row_count:
  assumes "n \<le> 2 ^ 32"
  shows "sint (word_of_nat n :: 64 word) = int n"
proof -
  have "int n \<le> 2 ^ 32" using assms by (metis of_nat_le_iff of_nat_numeral of_nat_power)
  then have "int n < 2 ^ 63" by simp
  moreover have "(word_of_nat n :: 64 word) = word_of_int (int n)" by simp
  ultimately show ?thesis
    by (simp only: sint_sbintrunc') (simp add: signed_take_bit_int_eq_self)
qed

lemma ListUsers_Total:
  "ListUsers db clock params = Inr lr \<Longrightarrow> Total lr = word_of_nat (length (rows db))"
  by (auto simp: ListUsers_def Count_def sql_count_def Let_def split: sum.splits option.splits)

lemma ListUsers_TotalPages:
  "ListUsers db clock params = Inr lr \<Longrightarrow>
     TotalPages lr = total_pages (Total lr) (ListPageSize lr)"
  by (auto simp: ListUsers_def Let_def split: sum.splits)

lemma validated_page_size:
  assumes "validate_PaginationParams params" and "ListUsers db clock params = Inr lr"
  shows "1 \<le> sint (ListPageSize lr) \<and> sint (ListPageSize lr) \<le> 100"
  using assms
  by (auto simp: ListUsers_def validate_PaginationParams_def SetDefaults_def Let_def
        split: sum.splits if_splits)


lemma ceiling_examples: "\<lceil>(1::real) / 10\<rceil> = 1" "\<lceil>(101::real) / 10\<rceil> = 11"
  by (rule ceiling_unique; simp)+

text \<open>
  Claim C3. For every result of \<open>ListUsers\<close> on a table whose ids are distinct (the
  primary key) and with a page size in 1..100, the total that is returned is the
  number of rows and the page count that is returned is the ceiling of total / page
  size under real-valued division; in particular the page count is 0 for (0, 10),
  1 for (1, 10) and 11 for (101, 10).
\<close>

theorem ListUsers_total_pages:
  assumes "distinct (map ID (rows db))"
    and "ListUsers db clock params = Inr lr"
    and "1 \<le> sint (ListPageSize lr)" and "sint (ListPageSize lr) \<le> 100"
  shows "sint (Total lr) = int (length (rows db)) \<and>
         sint (TotalPages lr)
           = \<lceil>real_of_int (sint (Total lr)) / real_of_int (sint (ListPageSize lr))\<rceil> \<and>
         sint (total_pages 0 10) = 0 \<and> sint (total_pages 1 10) = 1 \<and>
         sint (total_pages 101 10) = 11"
proof -
  have n: "length (rows db) \<le> 2 ^ 32"
    using assms(1) by (rule length_distinct_words)
  have t: "sint (Total lr) = int (length (rows db))"
    using ListUsers_Total [OF assms(2)] sint_row_count [OF n] by simp
  have "int (length (rows db)) \<le> 2 ^ 32"
    using n by (metis of_nat_le_iff of_nat_numeral of_nat_power)
  then have b: "0 \<le> sint (Total lr)" "sint (Total lr) < 2 ^ 53"
    using t by simp_all
  have "sint (total_pages (Total lr) (ListPageSize lr))
          = \<lceil>real_of_int (sint (Total lr)) / real_of_int (sint (ListPageSize lr))\<rceil>"
    using b assms(3,4) by (rule total_pages_exact)
  then have p: "sint (TotalPages lr)
          = \<lceil>real_of_int (sint (Total lr)) / real_of_int (sint (ListPageSize lr))\<rceil>"
    using ListUsers_TotalPages [OF assms(2)] by simp
  have e0: "sint (total_pages 0 10) = 0"
    using total_pages_exact [of 0 10] by simp
  have e1: "sint (total_pages 1 10) = 1"
    using total_pages_exact [of 1 10] by (simp add: ceiling_examples)
  have e2: "sint (total_pages 101 10) = 11"
    using total_pages_exact [of 101 10] by (simp add: ceiling_examples)
  show ?thesis using t p e0 e1 e2 by simp
qed

theorem ListUsers_total_pages_witness:
  "(\<exists>lr. ListUsers \<lparr>rows = [\<lparr>ID = 1, Name = ''Alice'',
                                 DOB = \<lparr>Year = 1990, Month = 5, Day = 10\<rparr>,
                                 CreatedAt = \<lparr>Year = 2024, Month = 5, Day = 10\<rparr>,
                                 UpdatedAt = \<lparr>Year = 2024, Month = 5, Day = 10\<rparr>\<rparr>],
                        next_id = 2, db_now = \<lparr>Year = 2024, Month = 5, Day = 10\<rparr>,
                        fault = None\<rparr>
                      (\<lambda>k. \<lparr>Year = 2024, Month = 5, Day = 10\<rparr>) \<lparr>Page = 0, PageSize = 0\<rparr>
            = Inr lr \<and>
          sint (Total lr) = 1 \<and> sint (ListPageSize lr) = 10 \<and> sint (TotalPages lr) = 1) \<and>
   sint (total_pages 0 10) = 0 \<and> sint (total_pages 1 10) = 1 \<and>
   sint (total_pages 101 10) = 11"
proof -
  let ?now = "\<lparr>Year = 2024, Month = 5, Day = 10\<rparr>"
  let ?u = "\<lparr>ID = 1, Name = ''Alice'', DOB = \<lparr>Year = 1990, Month = 5, Day = 10\<rparr>,
             CreatedAt = ?now, UpdatedAt = ?now\<rparr>"
  let ?db1 = "\<lparr>rows = [?u], next_id = 2, db_now = ?now, fault = None\<rparr>"
  let ?lr = "\<lparr>Users = [\<lparr>RespID = 1, RespName = ''Alice'',
                         RespDOB = FormatDate \<lparr>Year = 1990, Month = 5, Day = 10\<rparr>,
                         Age = Some 34\<rparr>],
              Total = 1, ListPage = 1, ListPageSize = 10, TotalPages = total_pages 1 10\<rparr>"
  have d: "distinct (map ID (rows ?db1))" by simp
  have l: "ListUsers ?db1 (\<lambda>k. ?now) \<lparr>Page = 0, PageSize = 0\<rparr> = Inr ?lr"
    by (simp add: ListUsers_def SetDefaults_def GetLimit_def GetOffset_def List_def
          sql_select_page_def Count_def sql_count_def CalculateAge_def enumerate_eq_zip Let_def)
  have lo: "1 \<le> sint (ListPageSize ?lr)" and hi: "sint (ListPageSize ?lr) \<le> 100"
    by simp_all
  have "sint (TotalPages ?lr) = 1 \<and> sint (total_pages 0 10) = 0 \<and>
        sint (total_pages 1 10) = 1 \<and> sint (total_pages 101 10) = 11"
    using ListUsers_total_pages [OF d l lo hi] by (simp add: ceiling_examples)
  then show ?thesis
    using l by (intro conjI exI [of _ ?lr]) simp_all
qed

end
